theory Spec2Isabelle
  imports
    Main
    "HOL-Library.Sublist"
    "HOL-Library.Char_ord"
    "HOL-Library.List_Lexorder"
    "HOL-Library.Multiset"
begin

section \<open>Go strings and the library functions the doc command calls\<close>

text \<open>
  A Go string is a sequence of bytes; it is modelled as a \<^typ>\<open>string\<close>, one
  \<^typ>\<open>char\<close> per byte. Go compares strings byte by byte, which is the lexicographic
  order of \<^typ>\<open>char list\<close> over the byte order of \<^typ>\<open>char\<close>.
\<close>

text \<open>
  \<^verbatim>\<open>strings.ReplaceAll(s, old, new)\<close>: every non-overlapping occurrence of \<open>old\<close>,
  found from the left, becomes \<open>new\<close>. The command only calls it with a one-byte
  \<open>old\<close>; for an empty \<open>old\<close> the model inserts \<open>new\<close> in front of every byte and at
  the end, which is what Go does on ASCII text.
\<close>

fun ReplaceAll :: "string \<Rightarrow> string \<Rightarrow> string \<Rightarrow> string" where
  "ReplaceAll [] old new = (if old = [] then new else [])"
| "ReplaceAll (c # cs) old new =
     (if old = [] then new @ c # ReplaceAll cs old new
      else if prefix old (c # cs) then new @ ReplaceAll (drop (length old) (c # cs)) old new
      else c # ReplaceAll cs old new)"

text \<open>
  \<^verbatim>\<open>strings.ToLower\<close>: when every byte is ASCII, the letters \<open>A\<close> to \<open>Z\<close> are moved to
  \<open>a\<close> to \<open>z\<close> byte by byte (\<^verbatim>\<open>c += 'a' - 'A'\<close>); otherwise the string is mapped rune by rune
  through the Unicode case tables, \<^verbatim>\<open>Map(unicode.ToLower, s)\<close>, which the model takes as
  the parameter \<open>unicode\<close>.
\<close>

definition asciiLower :: "char \<Rightarrow> char" where
  "asciiLower c =
     (if CHR ''A'' \<le> c \<and> c \<le> CHR ''Z'' then char_of (of_char c + (32::nat)) else c)"

definition isASCII :: "string \<Rightarrow> bool" where
  "isASCII s = list_all (\<lambda>c. of_char c < (128::nat)) s"

definition ToLower :: "(string \<Rightarrow> string) \<Rightarrow> string \<Rightarrow> string" where
  "ToLower unicode s = (if isASCII s then map asciiLower s else unicode s)"

text \<open>
  \<^verbatim>\<open>strings.TrimSpace\<close> removes all leading and trailing white space, as defined by
  Unicode: it decodes one UTF-8 rune at a time from the left, then from the right, and
  stops at the first rune outside \<^verbatim>\<open>unicode.IsSpace\<close>. A rune is decoded only from its
  shortest encoding, so a string starts (ends) with a white-space rune exactly when it
  starts (ends) with one of the byte sequences below: U+0009 to U+000D, U+0020, U+0085,
  U+00A0, U+1680, U+2000 to U+200A, U+2028, U+2029, U+202F, U+205F and U+3000.
\<close>

definition spaceEncodings :: "string list" where
  "spaceEncodings =
     [[CHR 0x09], [CHR 0x0A], [CHR 0x0B], [CHR 0x0C], [CHR 0x0D], [CHR 0x20],
      [CHR 0xC2, CHR 0x85], [CHR 0xC2, CHR 0xA0],
      [CHR 0xE1, CHR 0x9A, CHR 0x80],
      [CHR 0xE2, CHR 0x80, CHR 0x80], [CHR 0xE2, CHR 0x80, CHR 0x81],
      [CHR 0xE2, CHR 0x80, CHR 0x82], [CHR 0xE2, CHR 0x80, CHR 0x83],
      [CHR 0xE2, CHR 0x80, CHR 0x84], [CHR 0xE2, CHR 0x80, CHR 0x85],
      [CHR 0xE2, CHR 0x80, CHR 0x86], [CHR 0xE2, CHR 0x80, CHR 0x87],
      [CHR 0xE2, CHR 0x80, CHR 0x88], [CHR 0xE2, CHR 0x80, CHR 0x89],
      [CHR 0xE2, CHR 0x80, CHR 0x8A],
      [CHR 0xE2, CHR 0x80, CHR 0xA8], [CHR 0xE2, CHR 0x80, CHR 0xA9],
      [CHR 0xE2, CHR 0x80, CHR 0xAF],
      [CHR 0xE2, CHR 0x81, CHR 0x9F],
      [CHR 0xE3, CHR 0x80, CHR 0x80]]"

definition leadingSpace :: "string \<Rightarrow> nat" where
  "leadingSpace s =
     (case find (\<lambda>e. prefix e s) spaceEncodings of None \<Rightarrow> 0 | Some e \<Rightarrow> length e)"

definition trailingSpace :: "string \<Rightarrow> nat" where
  "trailingSpace s =
     (case find (\<lambda>e. suffix e s) spaceEncodings of None \<Rightarrow> 0 | Some e \<Rightarrow> length e)"

lemma leadingSpace_le: "leadingSpace s \<le> length s"
  by (auto simp: leadingSpace_def find_Some_iff split: option.splits dest: prefix_length_le)

lemma trailingSpace_le: "trailingSpace s \<le> length s"
  by (auto simp: trailingSpace_def find_Some_iff split: option.splits dest: suffix_length_le)

function TrimLeftSpace :: "string \<Rightarrow> string" where
  "TrimLeftSpace s =
     (if leadingSpace s = 0 then s else TrimLeftSpace (drop (leadingSpace s) s))"
  by pat_completeness auto
termination
proof (relation "measure length")
  fix s :: string
  assume "leadingSpace s \<noteq> 0"
  with leadingSpace_le [of s] show "(drop (leadingSpace s) s, s) \<in> measure length"
    by (cases s) auto
qed simp

function TrimRightSpace :: "string \<Rightarrow> string" where
  "TrimRightSpace s =
     (if trailingSpace s = 0 then s else TrimRightSpace (take (length s - trailingSpace s) s))"
  by pat_completeness auto
termination
proof (relation "measure length")
  fix s :: string
  assume "trailingSpace s \<noteq> 0"
  with trailingSpace_le [of s] show "(take (length s - trailingSpace s) s, s) \<in> measure length"
    by (cases s) auto
qed simp

declare TrimLeftSpace.simps [simp del] TrimRightSpace.simps [simp del]

definition TrimSpace :: "string \<Rightarrow> string" where
  "TrimSpace s = TrimRightSpace (TrimLeftSpace s)"

text \<open>\<^verbatim>\<open>strings.TrimSuffix\<close> removes one trailing occurrence of the suffix, if there is one.\<close>

definition TrimSuffix :: "string \<Rightarrow> string \<Rightarrow> string" where
  "TrimSuffix s suf = (if suffix suf s then take (length s - length suf) s else s)"

text \<open>\<^verbatim>\<open>strings.Join\<close>, used to state what the concatenation loops build.\<close>

fun Join :: "string list \<Rightarrow> string \<Rightarrow> string" where
  "Join [] sep = []"
| "Join [x] sep = x"
| "Join (x # y # ys) sep = x @ sep @ Join (y # ys) sep"

text \<open>The verb \<^verbatim>\<open>%v\<close> of \<^verbatim>\<open>fmt\<close> on a \<^verbatim>\<open>[]string\<close>: the elements between brackets, separated by spaces.\<close>

definition fmt_v :: "string list \<Rightarrow> string" where
  "fmt_v vs = ''['' @ Join vs '' '' @ '']''"

section \<open>The data model\<close>

text \<open>
  \<^verbatim>\<open>Header\<close> and \<^verbatim>\<open>Document\<close> are the structs of \<^verbatim>\<open>document.go\<close>. The types of the
  packages \<^verbatim>\<open>rego\<close>, \<^verbatim>\<open>metav1\<close> and \<^verbatim>\<open>apiextensionsv1\<close> are declared outside this file;
  they are modelled with the fields and methods that \<^verbatim>\<open>document.go\<close> reads, under
  prefixed names.
\<close>

text \<open>
  Modelled from the spec: the struct \<^verbatim>\<open>rego.Parameter\<close>, declared in package \<^verbatim>\<open>rego\<close>. It
  has the four fields that \<^verbatim>\<open>annoParamsToLegacyFormat\<close> fills: name, description, type and
  the array flag. Its \<^verbatim>\<open>Description\<close> is \<open>ParamDescription\<close> here, the header having a
  field of that name.
\<close>

record Parameter =
  Name :: string
  ParamDescription :: string
  IsArray :: bool
  Type :: string

record Header =
  Title :: string
  Description :: string
  Resources :: string
  MatchLabels :: string
  Anchor :: string
  Parameters :: "Parameter list"

record Document =
  Header :: Header
  URL :: string
  Rego :: string

text \<open>
  \<^verbatim>\<open>apiextensionsv1.JSONSchemaProps\<close> of the Kubernetes library: \<^verbatim>\<open>Type\<close>, \<^verbatim>\<open>Description\<close>
  and the pointer \<^verbatim>\<open>Items\<close> to a \<^verbatim>\<open>JSONSchemaPropsOrArray\<close>, whose \<^verbatim>\<open>Schema\<close> is again a
  pointer to a \<^verbatim>\<open>JSONSchemaProps\<close>. A nil pointer is \<open>None\<close>. The fields that
  \<^verbatim>\<open>document.go\<close> does not read are left out.
\<close>

datatype JSONSchemaProps =
  JSONSchemaProps (schema_Type: string) (schema_Description: string)
    (schema_Items: "JSONSchemaPropsOrArray option")
and JSONSchemaPropsOrArray =
  JSONSchemaPropsOrArray (Schema: "JSONSchemaProps option")

text \<open>
  \<^verbatim>\<open>metav1.LabelSelector\<close>. \<^verbatim>\<open>MatchLabels\<close> is a Go map, and \<^verbatim>\<open>range\<close> over a Go map
  enumerates its entries in an order the language leaves unspecified and the runtime
  randomises. The model keeps a Go map that is ranged over as the list of its entries in
  the order this run enumerates them: the keys are distinct, and every permutation of the
  list is a possible run on the same map.
\<close>

record LabelSelectorRequirement =
  Key :: string
  Operator :: string
  Values :: "string list"

record LabelSelector =
  selector_MatchLabels :: "(string \<times> string) list"
  selector_MatchExpressions :: "LabelSelectorRequirement list"

text \<open>
  Modelled from the spec: the legacy matchers that \<^verbatim>\<open>policy.Matchers()\<close> of package
  \<^verbatim>\<open>rego\<close> returns on success, as the pre-formatted kind-matcher string and the
  pre-formatted label-matcher string, which are all that \<^verbatim>\<open>document.go\<close> reads of them
  (\<^verbatim>\<open>KindMatchers.String()\<close> and \<^verbatim>\<open>MatchLabelsMatcher.String()\<close>).
\<close>

record Matchers =
  KindMatchers_String :: string
  MatchLabelsMatcher_String :: string

text \<open>
  Modelled from the spec: the parsed policy \<^verbatim>\<open>rego.Rego\<close> of package \<^verbatim>\<open>rego\<close>, as the
  results of the methods the command calls on it: kind, path, title, description,
  identifier, severity, enforcement, the legacy and the structured matchers, the legacy
  and the structured parameters, and the source with and without comments.
  \<^verbatim>\<open>policy_Matchers\<close> is \<open>Inl\<close> of the error message when parsing the legacy annotations
  fails. \<^verbatim>\<open>policy_AnnotationKindMatchers\<close> holds the rendering \<^verbatim>\<open>akm.String()\<close> of each
  structured kind matcher, in order. \<^verbatim>\<open>policy_AnnotationParameters\<close> is a Go map, kept in
  the order the run ranges over it.
\<close>

record Policy =
  policy_Kind :: string
  policy_Path :: string
  policy_Title :: string
  policy_Description :: string
  policy_PolicyID :: string
  policy_Severity :: string
  policy_Enforcement :: string
  policy_Matchers :: "string + Matchers"
  policy_AnnotationKindMatchers :: "string list"
  policy_AnnotationLabelSelectorMatcher :: "LabelSelector option"
  policy_Parameters :: "Parameter list"
  policy_AnnotationParameters :: "(string \<times> JSONSchemaProps) list"
  policy_FullSource :: string
  policy_Source :: string

text \<open>
  What the command reads from outside, as parameters: the settings held by \<^verbatim>\<open>viper\<close>, the
  policy loader \<^verbatim>\<open>rego.GetAllSeveritiesWithoutImports\<close> (\<open>Inl\<close> of the message when it
  fails), the host's \<^verbatim>\<open>path/filepath\<close> functions and path separator, the Unicode case
  mapping behind \<^verbatim>\<open>strings.ToLower\<close>, and \<^verbatim>\<open>sort.Slice\<close> (which is not guaranteed to be
  stable, so its result is only known through its contract).
\<close>

record Env =
  viper_url :: string
  viper_no_rego :: bool
  viper_include_comments :: bool
  rego_GetAllSeveritiesWithoutImports :: "string \<Rightarrow> string + Policy list"
  filepath_Abs :: "string \<Rightarrow> string + string"
  filepath_Rel :: "string \<Rightarrow> string \<Rightarrow> string + string"
  filepath_Dir :: "string \<Rightarrow> string"
  os_PathSeparator :: char
  unicode_ToLower :: "string \<Rightarrow> string"
  sort_Slice :: "(Document \<Rightarrow> Document \<Rightarrow> bool) \<Rightarrow> Document list \<Rightarrow> Document list"

text \<open>
  The errors \<^verbatim>\<open>getDocumentation\<close> returns, each wrapping the message of its cause, and the
  run-time panic of a nil pointer dereference.
\<close>

datatype error =
    GetAllSeverities string
  | AbsOutputDir string
  | AbsPolicy string
  | RelPath string
  | ParseMatchers string
  | NilPointerDereference

text \<open>A log entry of \<^verbatim>\<open>logrus\<close>: level, message and the fields of the logger.\<close>

datatype Level = InfoLevel | WarnLevel

record Entry =
  entry_Level :: Level
  entry_Message :: string
  entry_Data :: "(string \<times> string) list"

section \<open>The doc command\<close>

text \<open>The per-policy logger of lines 130 to 133 and its \<^verbatim>\<open>Warn\<close>.\<close>

definition logger_Warn :: "Policy \<Rightarrow> string \<Rightarrow> Entry" where
  "logger_Warn policy msg =
     \<lparr>entry_Level = WarnLevel, entry_Message = msg,
      entry_Data = [(''name'', policy_Kind policy), (''src'', policy_Path policy)]\<rparr>"

definition log_Info :: "string \<Rightarrow> Entry" where
  "log_Info msg = \<lparr>entry_Level = InfoLevel, entry_Message = msg, entry_Data = []\<rparr>"

text \<open>Lines 140 to 161: the link of the policy.\<close>

definition policyURL :: "Env \<Rightarrow> string \<Rightarrow> Policy \<Rightarrow> error + string" where
  "policyURL env outputDirectory policy =
     (if viper_url env \<noteq> '''' then Inr (viper_url env @ ''/'' @ policy_Path policy)
      else
        case filepath_Abs env outputDirectory of
          Inl err \<Rightarrow> Inl (AbsOutputDir err)
        | Inr outputDirectory' \<Rightarrow>
            (case filepath_Abs env (policy_Path policy) of
               Inl err \<Rightarrow> Inl (AbsPolicy err)
             | Inr policyPath \<Rightarrow>
                 (case filepath_Rel env outputDirectory' policyPath of
                    Inl err \<Rightarrow> Inl (RelPath err)
                  | Inr relPath \<Rightarrow>
                      Inr (ReplaceAll (filepath_Dir env relPath) [os_PathSeparator env] ''/''))))"

text \<open>Lines 163 to 166.\<close>

definition documentTitle :: "Policy \<Rightarrow> string" where
  "documentTitle policy =
     (if policy_PolicyID policy \<noteq> '''' then policy_PolicyID policy @ '': '' @ policy_Title policy
      else policy_Title policy)"

text \<open>Lines 168 and 169.\<close>

definition anchor :: "Env \<Rightarrow> string \<Rightarrow> string" where
  "anchor env title =
     ReplaceAll (ToLower (unicode_ToLower env) (ReplaceAll title '' '' ''-'')) '':'' ''''"

text \<open>
  Lines 176 to 188: the resources string and the warning logged when it is empty. The
  loop of lines 178 to 180 appends each rendering and a space.
\<close>

definition matchResources :: "Policy \<Rightarrow> Matchers \<Rightarrow> Entry list \<times> string" where
  "matchResources policy legacyMatchers =
     (let matchResources =
            (if length (policy_AnnotationKindMatchers policy) > 0
             then TrimSpace (foldl (\<lambda>acc akm. acc @ akm @ '' '') '''' (policy_AnnotationKindMatchers policy))
             else KindMatchers_String legacyMatchers)
      in if matchResources = ''''
         then ([logger_Warn policy ''No kind matchers set, this can lead to poor policy performance.''],
               ''Any Resource'')
         else ([], matchResources))"

text \<open>Lines 239 to 249.\<close>

definition labelSelectorDocString :: "LabelSelector \<Rightarrow> string" where
  "labelSelectorDocString selector =
     (let result = foldl (\<lambda>result (k, v). result @ k @ ''='' @ v @ '', '') ''''
                     (selector_MatchLabels selector);
          result = foldl (\<lambda>result expr.
                       result @ Key expr @ '' '' @ Operator expr @ '' '' @ fmt_v (Values expr) @ '', '')
                     result (selector_MatchExpressions selector)
      in TrimSuffix result '', '')"

text \<open>Lines 190 to 195.\<close>

definition matchLabels :: "Policy \<Rightarrow> Matchers \<Rightarrow> string" where
  "matchLabels policy legacyMatchers =
     (case policy_AnnotationLabelSelectorMatcher policy of
        Some selector \<Rightarrow> labelSelectorDocString selector
      | None \<Rightarrow> MatchLabelsMatcher_String legacyMatchers)"

text \<open>
  Lines 251 to 270. \<^verbatim>\<open>config.Items.Schema.Type\<close> dereferences two pointers: when either is
  nil the Go runtime panics.
\<close>

fun annoParamsToLegacyFormat_loop ::
  "Parameter list \<Rightarrow> (string \<times> JSONSchemaProps) list \<Rightarrow> error + Parameter list" where
  "annoParamsToLegacyFormat_loop results [] = Inr results"
| "annoParamsToLegacyFormat_loop results ((param, config) # rest) =
     (if schema_Type config = ''array'' then
        (case schema_Items config of
           None \<Rightarrow> Inl NilPointerDereference
         | Some items \<Rightarrow>
             (case Schema items of
                None \<Rightarrow> Inl NilPointerDereference
              | Some schema \<Rightarrow>
                  annoParamsToLegacyFormat_loop
                    (results @ [\<lparr>Name = param, ParamDescription = schema_Description config,
                                 IsArray = True, Type = schema_Type schema\<rparr>]) rest))
      else
        annoParamsToLegacyFormat_loop
          (results @ [\<lparr>Name = param, ParamDescription = schema_Description config,
                       IsArray = False, Type = schema_Type config\<rparr>]) rest)"

definition annoParamsToLegacyFormat ::
  "(string \<times> JSONSchemaProps) list \<Rightarrow> error + Parameter list" where
  "annoParamsToLegacyFormat parameters = annoParamsToLegacyFormat_loop [] parameters"

text \<open>Lines 197 to 200.\<close>

definition parameters :: "Policy \<Rightarrow> error + Parameter list" where
  "parameters policy =
     (if length (policy_AnnotationParameters policy) > 0
      then annoParamsToLegacyFormat (policy_AnnotationParameters policy)
      else Inr (policy_Parameters policy))"

text \<open>Lines 211 to 219.\<close>

definition regoSource :: "Env \<Rightarrow> Policy \<Rightarrow> string" where
  "regoSource env policy =
     (let rego = (if viper_include_comments env then policy_FullSource policy
                  else policy_Source policy)
      in if viper_no_rego env then '''' else rego)"

text \<open>
  Lines 140 to 224, the part of the loop body that builds the document of a policy with a
  title: the warnings it logs, and the document or the error that ends the run.
\<close>

definition buildDocument :: "Env \<Rightarrow> string \<Rightarrow> Policy \<Rightarrow> Entry list \<times> (error + Document)" where
  "buildDocument env outputDirectory policy =
     (case policyURL env outputDirectory policy of
        Inl err \<Rightarrow> ([], Inl err)
      | Inr url \<Rightarrow>
          (case policy_Matchers policy of
             Inl err \<Rightarrow> ([], Inl (ParseMatchers err))
           | Inr legacyMatchers \<Rightarrow>
               (case matchResources policy legacyMatchers of
                  (warnings, resources) \<Rightarrow>
                    (case parameters policy of
                       Inl err \<Rightarrow> (warnings, Inl err)
                     | Inr params \<Rightarrow>
                         (warnings,
                          Inr \<lparr>Header =
                                 \<lparr>Title = documentTitle policy,
                                  Description = policy_Description policy,
                                  Resources = resources,
                                  MatchLabels = matchLabels policy legacyMatchers,
                                  Anchor = anchor env (documentTitle policy),
                                  Parameters = params\<rparr>,
                               URL = url,
                               Rego = regoSource env policy\<rparr>)))))"

text \<open>
  Lines 226 to 232. \<^verbatim>\<open>documents\<close> is a Go map from severity to a slice; reading a key
  that is not there gives the nil slice.
\<close>

type_synonym documents = "string \<Rightarrow> Document list option"

definition bucket :: "documents \<Rightarrow> string \<Rightarrow> Document list" where
  "bucket documents key = (case documents key of None \<Rightarrow> [] | Some ds \<Rightarrow> ds)"

definition addDocument :: "Policy \<Rightarrow> Document \<Rightarrow> documents \<Rightarrow> documents" where
  "addDocument policy document documents =
     (if policy_Severity policy = ''''
      then documents(''Other'' \<mapsto> bucket documents ''Other'' @ [document])
      else if policy_Enforcement policy = ''dryrun''
      then documents(''Not Enforced'' \<mapsto> bucket documents ''Not Enforced'' @ [document])
      else documents(policy_Severity policy \<mapsto> bucket documents (policy_Severity policy) @ [document]))"

text \<open>The loop of lines 129 to 233 over the policies, on the log and the map.\<close>

fun processPolicies ::
  "Env \<Rightarrow> string \<Rightarrow> Policy list \<Rightarrow> Entry list \<times> documents \<Rightarrow> Entry list \<times> (error + documents)" where
  "processPolicies env outputDirectory [] (logged, documents) = (logged, Inr documents)"
| "processPolicies env outputDirectory (policy # rest) (logged, documents) =
     (if policy_Title policy = ''''
      then processPolicies env outputDirectory rest
             (logged @ [logger_Warn policy ''No title set, skipping documentation generation.''],
              documents)
      else
        case buildDocument env outputDirectory policy of
          (warnings, Inl err) \<Rightarrow> (logged @ warnings, Inl err)
        | (warnings, Inr document) \<Rightarrow>
            processPolicies env outputDirectory rest
              (logged @ warnings, addDocument policy document documents))"

text \<open>Lines 272 to 278: every slice of the map is sorted by title.\<close>

definition titleLess :: "Document \<Rightarrow> Document \<Rightarrow> bool" where
  "titleLess a b = (Title (Header a) < Title (Header b))"

definition sortPoliciesByTitle :: "Env \<Rightarrow> documents \<Rightarrow> documents" where
  "sortPoliciesByTitle env policyMap =
     (\<lambda>key. map_option (sort_Slice env titleLess) (policyMap key))"

text \<open>Lines 118 to 237: the log of the run, and the sorted map or the error.\<close>

definition getDocumentation :: "Env \<Rightarrow> string \<Rightarrow> string \<Rightarrow> Entry list \<times> (error + documents)" where
  "getDocumentation env path outputDirectory =
     (case rego_GetAllSeveritiesWithoutImports env path of
        Inl err \<Rightarrow> ([], Inl (GetAllSeverities err))
      | Inr policies \<Rightarrow>
          (let logged =
                 (if viper_no_rego env
                  then [log_Info ''no-rego flag is set. Policy source will not be included in the documentation.'']
                  else [])
           in case processPolicies env outputDirectory policies (logged, Map.empty) of
                (logged', Inl err) \<Rightarrow> (logged', Inl err)
              | (logged', Inr documents) \<Rightarrow> (logged', Inr (sortPoliciesByTitle env documents))))"

section \<open>A Unix host\<close>

text \<open>
  The functions of \<^verbatim>\<open>path/filepath\<close> on a host whose separator is the slash, element by
  element. \<^verbatim>\<open>Clean\<close> drops empty and \<open>.\<close> elements, lets \<open>..\<close> cancel the element before
  it, drops a \<open>..\<close> at the root and keeps a leading \<open>..\<close> of a relative path.
\<close>

fun splitOn :: "char \<Rightarrow> string \<Rightarrow> string list" where
  "splitOn sep [] = [[]]"
| "splitOn sep (c # cs) =
     (if c = sep then [] # splitOn sep cs
      else case splitOn sep cs of
             [] \<Rightarrow> [[c]]
           | (x # xs) \<Rightarrow> (c # x) # xs)"

fun cleanElements :: "bool \<Rightarrow> string list \<Rightarrow> string list \<Rightarrow> string list" where
  "cleanElements rooted out [] = out"
| "cleanElements rooted out (e # es) =
     (if e = '''' \<or> e = ''.'' then cleanElements rooted out es
      else if e = ''..'' then
        (if out \<noteq> [] \<and> last out \<noteq> ''..'' then cleanElements rooted (butlast out) es
         else if rooted then cleanElements rooted out es
         else cleanElements rooted (out @ [''..'']) es)
      else cleanElements rooted (out @ [e]) es)"

definition unixClean :: "string \<Rightarrow> string" where
  "unixClean path =
     (let rooted = prefix ''/'' path;
          out = cleanElements rooted [] (splitOn CHR ''/'' path)
      in if rooted then ''/'' @ Join out ''/''
         else if out = [] then ''.'' else Join out ''/'')"

text \<open>\<^verbatim>\<open>Dir\<close> cleans the path up to and including its last separator.\<close>

definition unixDir :: "string \<Rightarrow> string" where
  "unixDir path = unixClean (rev (dropWhile (\<lambda>c. c \<noteq> CHR ''/'') (rev path)))"

text \<open>
  \<^verbatim>\<open>Join\<close> of two elements skips the leading empty ones and cleans the rest, joined by
  the separator. \<^verbatim>\<open>Abs\<close> cleans an absolute path and joins a relative one to the working
  directory; it fails when \<^verbatim>\<open>os.Getwd\<close> does.
\<close>

definition unixJoin :: "string \<Rightarrow> string \<Rightarrow> string" where
  "unixJoin a b =
     (if a \<noteq> '''' then unixClean (a @ ''/'' @ b)
      else if b \<noteq> '''' then unixClean b
      else '''')"

definition unixAbs :: "string + string \<Rightarrow> string \<Rightarrow> string + string" where
  "unixAbs getwd path =
     (if prefix ''/'' path then Inr (unixClean path)
      else case getwd of
             Inl err \<Rightarrow> Inl err
           | Inr wd \<Rightarrow> Inr (unixJoin wd path))"

text \<open>
  \<^verbatim>\<open>Rel\<close> cleans both paths, skips the elements they share, and climbs out of what is
  left of the base before descending into what is left of the target. The command only
  calls it on two results of \<^verbatim>\<open>Abs\<close>, that is on absolute, clean paths, and the model is
  meant for those.
\<close>

fun dropCommon :: "string list \<Rightarrow> string list \<Rightarrow> string list \<times> string list" where
  "dropCommon (b # bs) (t # ts) = (if b = t then dropCommon bs ts else (b # bs, t # ts))"
| "dropCommon bs ts = (bs, ts)"

definition elements :: "string \<Rightarrow> string list" where
  "elements path =
     (if path = '''' then [] else if path = ''/'' then [''''] else splitOn CHR ''/'' path)"

definition unixRel :: "string \<Rightarrow> string \<Rightarrow> string + string" where
  "unixRel basepath targpath =
     (let base = unixClean basepath; targ = unixClean targpath in
      if targ = base then Inr ''.''
      else
        let base = (if base = ''.'' then '''' else base) in
        if prefix ''/'' base \<noteq> prefix ''/'' targ
        then Inl (''Rel: can't make '' @ targpath @ '' relative to '' @ basepath)
        else
          case dropCommon (elements base) (elements targ) of
            (bs, ts) \<Rightarrow>
              if bs \<noteq> [] \<and> hd bs = ''..''
              then Inl (''Rel: can't make '' @ targpath @ '' relative to '' @ basepath)
              else Inr (Join (replicate (length bs) ''..'' @ ts) ''/''))"

text \<open>
  For the proofs about the Unix host: the elements of a clean absolute path are not empty,
  not \<open>.\<close>, not \<open>..\<close> and hold no slash, and the path is the slash followed by its
  elements joined by slashes.
\<close>

definition normalElements :: "string list \<Rightarrow> bool" where
  "normalElements es =
     (\<forall>e\<in>set es. e \<noteq> '''' \<and> e \<noteq> ''.'' \<and> e \<noteq> ''..'' \<and> CHR ''/'' \<notin> set e)"

definition rootedPath :: "string list \<Rightarrow> string" where
  "rootedPath es = ''/'' @ Join es ''/''"

text \<open>An environment that runs on this host, in an absolute working directory.\<close>

definition unixHost :: "Env \<Rightarrow> string \<Rightarrow> bool" where
  "unixHost env wd =
     (filepath_Abs env = unixAbs (Inr wd) \<and> prefix ''/'' wd \<and>
      filepath_Rel env = unixRel \<and> filepath_Dir env = unixDir \<and>
      os_PathSeparator env = CHR ''/'')"

section \<open>Sorting a slice\<close>

text \<open>
  The insertion sort that \<^verbatim>\<open>sort.Slice\<close> runs on short slices: each element moves left
  as long as it is less than its left neighbour. \<open>sift\<close> works on the reversed prefix.
\<close>

fun sift :: "('a \<Rightarrow> 'a \<Rightarrow> bool) \<Rightarrow> 'a \<Rightarrow> 'a list \<Rightarrow> 'a list" where
  "sift lt x [] = [x]"
| "sift lt x (y # ys) = (if lt x y then y # sift lt x ys else x # y # ys)"

definition insertionSort :: "('a \<Rightarrow> 'a \<Rightarrow> bool) \<Rightarrow> 'a list \<Rightarrow> 'a list" where
  "insertionSort lt xs = rev (foldl (\<lambda>acc x. sift lt x acc) [] xs)"

text \<open>
  The contract of \<^verbatim>\<open>sort.Slice\<close> for the order of \<^verbatim>\<open>sortPoliciesByTitle\<close>: the result is a
  permutation of the slice in which no element is less than an earlier one.
\<close>

definition sort_Slice_contract ::
  "((Document \<Rightarrow> Document \<Rightarrow> bool) \<Rightarrow> Document list \<Rightarrow> Document list) \<Rightarrow> bool" where
  "sort_Slice_contract srt =
     (\<forall>ds. mset (srt titleLess ds) = mset ds \<and>
           sorted_wrt (\<lambda>a b. \<not> titleLess b a) (srt titleLess ds))"

section \<open>Example inputs\<close>

text \<open>
  A policy with an identifier, severity \<open>high\<close> and enforcement \<open>dryrun\<close>, in a
  subdirectory of the output directory; an environment on the Unix host without base URL,
  whose loader returns this policy; and the document the loop body builds for it.
\<close>

definition examplePolicy :: Policy where
  "examplePolicy =
     \<lparr>policy_Kind = ''RequireLabels'',
      policy_Path = ''/out/sub/policy.rego'',
      policy_Title = ''Require Labels'',
      policy_Description = ''Every resource carries the team label.'',
      policy_PolicyID = ''POL-1'',
      policy_Severity = ''high'',
      policy_Enforcement = ''dryrun'',
      policy_Matchers = Inr \<lparr>KindMatchers_String = ''core/Pod'', MatchLabelsMatcher_String = ''team=a''\<rparr>,
      policy_AnnotationKindMatchers = [],
      policy_AnnotationLabelSelectorMatcher = None,
      policy_Parameters = [],
      policy_AnnotationParameters = [],
      policy_FullSource = ''# comment; package p'',
      policy_Source = ''package p''\<rparr>"

definition exampleEnv :: Env where
  "exampleEnv =
     \<lparr>viper_url = '''',
      viper_no_rego = False,
      viper_include_comments = False,
      rego_GetAllSeveritiesWithoutImports = (\<lambda>path. Inr [examplePolicy]),
      filepath_Abs = unixAbs (Inr ''/work''),
      filepath_Rel = unixRel,
      filepath_Dir = unixDir,
      os_PathSeparator = CHR ''/'',
      unicode_ToLower = (\<lambda>s. s),
      sort_Slice = insertionSort\<rparr>"

definition exampleBuilt :: Document where
  "exampleBuilt =
     \<lparr>Header =
        \<lparr>Title = ''POL-1: Require Labels'',
         Description = ''Every resource carries the team label.'',
         Resources = ''core/Pod'',
         MatchLabels = ''team=a'',
         Anchor = ''pol-1-require-labels'',
         Parameters = []\<rparr>,
      URL = ''sub'',
      Rego = ''package p''\<rparr>"

definition untitledPolicy :: Policy where
  "untitledPolicy = examplePolicy\<lparr>policy_Title := ''''\<rparr>"

definition brokenPolicy :: Policy where
  "brokenPolicy =
     examplePolicy\<lparr>policy_Matchers := Inl ''invalid matchers'',
                    policy_AnnotationKindMatchers := [''apps/Deployment'']\<rparr>"

definition policyBY :: Policy where
  "policyBY =
     examplePolicy\<lparr>policy_PolicyID := ''B'', policy_Title := ''Y'', policy_Enforcement := ''deny''\<rparr>"

definition policyAX :: Policy where
  "policyAX =
     examplePolicy\<lparr>policy_PolicyID := ''A'', policy_Title := ''X'', policy_Enforcement := ''deny''\<rparr>"

definition sortEnv :: Env where
  "sortEnv = exampleEnv\<lparr>rego_GetAllSeveritiesWithoutImports := \<lambda>path. Inr [policyBY, policyAX]\<rparr>"

definition documentBY :: Document where
  "documentBY = exampleBuilt\<lparr>Header := (Header exampleBuilt)\<lparr>Title := ''B: Y'', Anchor := ''b-y''\<rparr>\<rparr>"

definition documentAX :: Document where
  "documentAX = exampleBuilt\<lparr>Header := (Header exampleBuilt)\<lparr>Title := ''A: X'', Anchor := ''a-x''\<rparr>\<rparr>"

definition unmatchedPolicy :: Policy where
  "unmatchedPolicy =
     examplePolicy\<lparr>policy_Matchers :=
       Inr \<lparr>KindMatchers_String = '''', MatchLabelsMatcher_String = ''''\<rparr>\<rparr>"

text \<open>
  Structured kind matchers whose renderings carry white space around them (a no-break
  space in front, a tab and a space behind), and renderings that are white space only.
\<close>

definition paddedPolicy :: Policy where
  "paddedPolicy =
     examplePolicy\<lparr>policy_AnnotationKindMatchers :=
       [[CHR 0xC2, CHR 0xA0] @ ''apps/Deployment'', ''core/Pod'' @ [CHR 0x09, CHR 0x20]]\<rparr>"

definition blankPolicy :: Policy where
  "blankPolicy = examplePolicy\<lparr>policy_AnnotationKindMatchers := ['' '', [CHR 0x09]]\<rparr>"

text \<open>One label map, enumerated in two orders.\<close>

definition selectorAB :: LabelSelector where
  "selectorAB =
     \<lparr>selector_MatchLabels = [(''app'', ''web''), (''tier'', ''db'')],
      selector_MatchExpressions =
        [\<lparr>Key = ''env'', Operator = ''In'', Values = [''prod'', ''qa'']\<rparr>]\<rparr>"

definition selectorBA :: LabelSelector where
  "selectorBA =
     \<lparr>selector_MatchLabels = [(''tier'', ''db''), (''app'', ''web'')],
      selector_MatchExpressions =
        [\<lparr>Key = ''env'', Operator = ''In'', Values = [''prod'', ''qa'']\<rparr>]\<rparr>"

definition selectorPolicy :: Policy where
  "selectorPolicy = examplePolicy\<lparr>policy_AnnotationLabelSelectorMatcher := Some selectorBA\<rparr>"

text \<open>
  A parameter \<open>tags\<close> of type array, with an item schema of type string, and the same
  parameter declared without \<^verbatim>\<open>items\<close>.
\<close>

definition arrayPolicy :: Policy where
  "arrayPolicy =
     examplePolicy\<lparr>policy_AnnotationParameters :=
       [(''tags'', JSONSchemaProps ''array'' ''Allowed tags''
                    (Some (JSONSchemaPropsOrArray (Some (JSONSchemaProps ''string'' '''' None)))))]\<rparr>"

definition bareArrayPolicy :: Policy where
  "bareArrayPolicy =
     examplePolicy\<lparr>policy_AnnotationParameters :=
       [(''tags'', JSONSchemaProps ''array'' ''Allowed tags'' None)]\<rparr>"

definition relativePolicy :: Policy where
  "relativePolicy = examplePolicy\<lparr>policy_Path := ''policies/labels/src.rego''\<rparr>"

definition hostedEnv :: Env where
  "hostedEnv = exampleEnv\<lparr>viper_url := ''https://example.com/repo''\<rparr>"

section \<open>What the loop body builds\<close>

lemma buildDocument_Inr:
  assumes "buildDocument env out policy = (warnings, Inr document)"
  obtains url legacyMatchers params where
    "policyURL env out policy = Inr url"
    "policy_Matchers policy = Inr legacyMatchers"
    "parameters policy = Inr params"
    "warnings = fst (matchResources policy legacyMatchers)"
    "document =
       \<lparr>Header =
          \<lparr>Title = documentTitle policy,
           Description = policy_Description policy,
           Resources = snd (matchResources policy legacyMatchers),
           MatchLabels = matchLabels policy legacyMatchers,
           Anchor = anchor env (documentTitle policy),
           Parameters = params\<rparr>,
        URL = url,
        Rego = regoSource env policy\<rparr>"
  using assms unfolding buildDocument_def
  by (auto split: sum.splits prod.splits)

lemma buildDocument_ok:
  assumes "policyURL env out policy = Inr url"
    and "policy_Matchers policy = Inr legacyMatchers"
    and "parameters policy = Inr params"
  shows "buildDocument env out policy =
    (fst (matchResources policy legacyMatchers),
     Inr \<lparr>Header =
          \<lparr>Title = documentTitle policy,
           Description = policy_Description policy,
           Resources = snd (matchResources policy legacyMatchers),
           MatchLabels = matchLabels policy legacyMatchers,
           Anchor = anchor env (documentTitle policy),
           Parameters = params\<rparr>,
        URL = url,
        Rego = regoSource env policy\<rparr>)"
  using assms unfolding buildDocument_def
  by (auto split: sum.splits prod.splits)

lemma example_built:
  "buildDocument exampleEnv ''/out'' examplePolicy = ([], Inr exampleBuilt)"
  by code_simp

lemma addDocument_bucket:
  "addDocument policy document documents =
     (\<lambda>key. if key = (if policy_Severity policy = '''' then ''Other''
                       else if policy_Enforcement policy = ''dryrun'' then ''Not Enforced''
                       else policy_Severity policy)
            then Some (bucket documents key @ [document]) else documents key)"
  by (auto simp: addDocument_def fun_eq_iff)

section \<open>The loop over the policies\<close>

lemma processPolicies_append:
  "processPolicies env out (ps @ qs) (logged, documents) =
     (case processPolicies env out ps (logged, documents) of
        (logged', Inl err) \<Rightarrow> (logged', Inl err)
      | (logged', Inr documents') \<Rightarrow> processPolicies env out qs (logged', documents'))"
  by (induction ps arbitrary: logged documents) (auto split: sum.splits prod.splits)

lemma processPolicies_log:
  "processPolicies env out ps (logged, documents) =
     (logged @ fst (processPolicies env out ps ([], documents)),
      snd (processPolicies env out ps ([], documents)))"
proof (induction ps arbitrary: logged documents)
  case Nil
  then show ?case by simp
next
  case (Cons p ps)
  show ?case
  proof (cases "policy_Title p = ''''")
    case True
    then show ?thesis
      using Cons.IH [of "logged @ [logger_Warn p ''No title set, skipping documentation generation.'']" documents]
        Cons.IH [of "[logger_Warn p ''No title set, skipping documentation generation.'']" documents]
      by simp
  next
    case False
    obtain ws r where b: "buildDocument env out p = (ws, r)"
      by (cases "buildDocument env out p")
    show ?thesis
    proof (cases r)
      case (Inl e)
      with False b show ?thesis by simp
    next
      case (Inr d)
      with False b show ?thesis
        using Cons.IH [of "logged @ ws" "addDocument p d documents"]
          Cons.IH [of "ws" "addDocument p d documents"]
        by simp
    qed
  qed
qed

section \<open>Bucket assignment\<close>

lemma bucket_addDocument:
  "bucket (addDocument policy document documents) key =
     (if key = (if policy_Severity policy = '''' then ''Other''
                else if policy_Enforcement policy = ''dryrun'' then ''Not Enforced''
                else policy_Severity policy)
      then bucket documents key @ [document] else bucket documents key)"
  by (simp add: addDocument_bucket bucket_def)

lemma processPolicies_buckets:
  assumes "processPolicies env out ps (logged, documents) = (logged', Inr documents')"
  shows "bucket documents' key =
           bucket documents key @
           map (\<lambda>p. projr (snd (buildDocument env out p)))
             (filter (\<lambda>p. policy_Title p \<noteq> '''' \<and>
                          key = (if policy_Severity p = '''' then ''Other''
                                 else if policy_Enforcement p = ''dryrun'' then ''Not Enforced''
                                 else policy_Severity p)) ps)"
  using assms
proof (induction ps arbitrary: logged documents)
  case Nil
  then show ?case by simp
next
  case (Cons p ps)
  show ?case
  proof (cases "policy_Title p = ''''")
    case True
    with Cons.prems have "processPolicies env out ps
        (logged @ [logger_Warn p ''No title set, skipping documentation generation.''], documents) =
        (logged', Inr documents')"
      by simp
    from Cons.IH [OF this] True show ?thesis by simp
  next
    case False
    obtain ws r where b: "buildDocument env out p = (ws, r)"
      by (cases "buildDocument env out p")
    show ?thesis
    proof (cases r)
      case (Inl e)
      with False b Cons.prems show ?thesis by simp
    next
      case (Inr d)
      with False b Cons.prems have "processPolicies env out ps (logged @ ws, addDocument p d documents) =
          (logged', Inr documents')"
        by simp
      from Cons.IH [OF this] False b Inr show ?thesis
        by (simp add: bucket_addDocument)
    qed
  qed
qed

text \<open>
  Claim C1. A policy with a title whose document is built is appended to exactly one
  bucket of the map: the loop goes on with the map in which the chosen key holds its old
  slice followed by the document and every other key is as before. The key is \<open>Other\<close>
  when the severity is empty, whatever the enforcement; otherwise \<open>Not Enforced\<close> when the
  enforcement is \<open>dryrun\<close>, whatever the severity; otherwise the severity. Hence, when the
  loop over all policies succeeds, each bucket holds the documents of exactly the titled
  policies that choose its key, once each and in the order of the policies.
\<close>

theorem bucket_assignment:
  "(policy_Title policy \<noteq> '''' \<and>
    buildDocument env outputDirectory policy = (warnings, Inr document) \<longrightarrow>
      processPolicies env outputDirectory (policy # rest) (logged, documents) =
        processPolicies env outputDirectory rest
          (logged @ warnings,
           (\<lambda>key. if key = (if policy_Severity policy = '''' then ''Other''
                             else if policy_Enforcement policy = ''dryrun'' then ''Not Enforced''
                             else policy_Severity policy)
                  then Some (bucket documents key @ [document]) else documents key))) \<and>
   (processPolicies env outputDirectory policies ([], Map.empty) = (logged', Inr unsorted) \<longrightarrow>
      bucket unsorted key =
        map (\<lambda>p. projr (snd (buildDocument env outputDirectory p)))
          (filter (\<lambda>p. policy_Title p \<noteq> '''' \<and>
                       key = (if policy_Severity p = '''' then ''Other''
                              else if policy_Enforcement p = ''dryrun'' then ''Not Enforced''
                              else policy_Severity p)) policies))"
proof (intro conjI impI)
  assume "policy_Title policy \<noteq> '''' \<and>
          buildDocument env outputDirectory policy = (warnings, Inr document)"
  then show "processPolicies env outputDirectory (policy # rest) (logged, documents) =
        processPolicies env outputDirectory rest
          (logged @ warnings,
           (\<lambda>key. if key = (if policy_Severity policy = '''' then ''Other''
                             else if policy_Enforcement policy = ''dryrun'' then ''Not Enforced''
                             else policy_Severity policy)
                  then Some (bucket documents key @ [document]) else documents key))"
    by (simp add: addDocument_bucket)
next
  assume "processPolicies env outputDirectory policies ([], Map.empty) = (logged', Inr unsorted)"
  from processPolicies_buckets [OF this, of key]
  show "bucket unsorted key =
        map (\<lambda>p. projr (snd (buildDocument env outputDirectory p)))
          (filter (\<lambda>p. policy_Title p \<noteq> '''' \<and>
                       key = (if policy_Severity p = '''' then ''Other''
                              else if policy_Enforcement p = ''dryrun'' then ''Not Enforced''
                              else policy_Severity p)) policies)"
    by (simp add: bucket_def)
qed

text \<open>
  The example policy has severity \<open>high\<close> and enforcement \<open>dryrun\<close>: its document is the
  only one of \<open>Not Enforced\<close>, and there is no bucket \<open>high\<close>.
\<close>

theorem bucket_assignment_witness:
  "policy_Title examplePolicy \<noteq> '''' \<and>
   buildDocument exampleEnv ''/out'' examplePolicy = ([], Inr exampleBuilt) \<and>
   (\<exists>documents.
      processPolicies exampleEnv ''/out'' [examplePolicy] ([], Map.empty) = ([], Inr documents) \<and>
      documents ''Not Enforced'' = Some [exampleBuilt] \<and>
      documents ''high'' = None \<and>
      documents ''Other'' = None \<and>
      bucket documents ''Not Enforced'' = [exampleBuilt] \<and>
      bucket documents ''high'' = [])"
proof -
  have t: "policy_Title examplePolicy \<noteq> ''''"
    by (simp add: examplePolicy_def)
  have s: "policy_Severity examplePolicy = ''high''" "policy_Enforcement examplePolicy = ''dryrun''"
    by (simp_all add: examplePolicy_def)
  let ?documents = "\<lambda>key. if key = ''Not Enforced'' then Some [exampleBuilt] else None"
  note w = bucket_assignment [of examplePolicy exampleEnv "''/out''" "[]" exampleBuilt "[]" "[]"
      Map.empty "[examplePolicy]" "[]" ?documents]
  from w [of "''high''"] t example_built
  have p: "processPolicies exampleEnv ''/out'' [examplePolicy] ([], Map.empty) = ([], Inr ?documents)"
    by (simp add: s bucket_def fun_eq_iff)
  from w [of "''Not Enforced''"] p t example_built
  have n: "bucket ?documents ''Not Enforced'' = [exampleBuilt]"
    by (simp add: s)
  from w [of "''high''"] p t
  have h: "bucket ?documents ''high'' = []"
    by (simp add: s)
  from t example_built p n h show ?thesis
    by (intro conjI exI [of _ ?documents]) simp_all
qed

section \<open>The source text of a document\<close>

text \<open>
  Claim C6. The Rego text of the document built for a policy is empty whenever the
  setting no-rego is true, also when include-comments is true; when no-rego is false it
  is the full source if include-comments is true and the comment-stripped source
  otherwise.
\<close>

theorem rego_source_text:
  assumes "buildDocument env outputDirectory policy = (warnings, Inr document)"
  shows "Rego document =
           (if viper_no_rego env then ''''
            else if viper_include_comments env then policy_FullSource policy
            else policy_Source policy)"
  using assms by (elim buildDocument_Inr) (simp add: regoSource_def)

theorem rego_source_text_witness:
  "buildDocument (exampleEnv\<lparr>viper_no_rego := True, viper_include_comments := True\<rparr>) ''/out''
     examplePolicy = ([], Inr (exampleBuilt\<lparr>Rego := ''''\<rparr>)) \<and>
   Rego (exampleBuilt\<lparr>Rego := ''''\<rparr>) = ''''"
proof -
  have h: "buildDocument (exampleEnv\<lparr>viper_no_rego := True, viper_include_comments := True\<rparr>) ''/out''
             examplePolicy = ([], Inr (exampleBuilt\<lparr>Rego := ''''\<rparr>))"
    by code_simp
  from rego_source_text [OF h] h show ?thesis by simp
qed

section \<open>Runs of the command\<close>

lemma buildDocument_loader:
  "buildDocument (env\<lparr>rego_GetAllSeveritiesWithoutImports := f\<rparr>) out policy =
   buildDocument env out policy"
proof -
  have u: "policyURL (env\<lparr>rego_GetAllSeveritiesWithoutImports := f\<rparr>) out policy =
           policyURL env out policy"
    by (simp add: policyURL_def split: sum.splits)
  have a: "anchor (env\<lparr>rego_GetAllSeveritiesWithoutImports := f\<rparr>) = anchor env"
    by (simp add: anchor_def fun_eq_iff)
  have r: "regoSource (env\<lparr>rego_GetAllSeveritiesWithoutImports := f\<rparr>) = regoSource env"
    by (simp add: regoSource_def fun_eq_iff)
  show ?thesis
    unfolding buildDocument_def u a r by (rule refl)
qed

lemma processPolicies_loader:
  "processPolicies (env\<lparr>rego_GetAllSeveritiesWithoutImports := f\<rparr>) out ps st =
   processPolicies env out ps st"
  by (induction env out ps st rule: processPolicies.induct)
     (simp_all add: buildDocument_loader split: prod.splits sum.splits)

lemma processPolicies_untitled:
  assumes "policy_Title policy = ''''"
  shows "snd (processPolicies env out (before @ policy # rest) (logged, documents)) =
         snd (processPolicies env out (before @ rest) (logged, documents))"
proof -
  obtain lg r where b: "processPolicies env out before (logged, documents) = (lg, r)"
    by (cases "processPolicies env out before (logged, documents)")
  show ?thesis
  proof (cases r)
    case (Inl e)
    with b show ?thesis by (simp add: processPolicies_append)
  next
    case (Inr ds)
    with b assms show ?thesis
      using processPolicies_log [of env out rest "lg @ [logger_Warn policy ''No title set, skipping documentation generation.'']" ds]
        processPolicies_log [of env out rest lg ds]
      by (simp add: processPolicies_append)
  qed
qed

lemma getDocumentation_snd:
  "rego_GetAllSeveritiesWithoutImports env path = Inr policies \<Longrightarrow>
   snd (getDocumentation env path out) =
     map_sum id (sortPoliciesByTitle env) (snd (processPolicies env out policies ([], Map.empty)))"
proof -
  assume l: "rego_GetAllSeveritiesWithoutImports env path = Inr policies"
  define logged where "logged =
    (if viper_no_rego env
     then [log_Info ''no-rego flag is set. Policy source will not be included in the documentation.'']
     else [])"
  have "snd (processPolicies env out policies (logged, Map.empty)) =
        snd (processPolicies env out policies ([], Map.empty))"
    using processPolicies_log [of env out policies logged Map.empty] by simp
  then show ?thesis
    unfolding getDocumentation_def l logged_def [symmetric]
    by (cases "processPolicies env out policies (logged, Map.empty)";
        cases "snd (processPolicies env out policies (logged, Map.empty))")
       (auto simp: Let_def)
qed

section \<open>Policies without a title\<close>

text \<open>
  Claim C2. A policy whose title is empty produces no document and no error: the loop
  goes on with the remaining policies on the same map, and its log grows by exactly one
  warning. The result of a whole run, map or error, is the result of the run on the
  policies without that one.
\<close>

theorem untitled_policy_skipped:
  assumes "policy_Title policy = ''''"
  shows "processPolicies env outputDirectory (policy # rest) (logged, documents) =
           processPolicies env outputDirectory rest
             (logged @ [logger_Warn policy ''No title set, skipping documentation generation.''],
              documents) \<and>
         (rego_GetAllSeveritiesWithoutImports env path = Inr (before @ policy # rest) \<longrightarrow>
            snd (getDocumentation env path outputDirectory) =
            snd (getDocumentation
                   (env\<lparr>rego_GetAllSeveritiesWithoutImports := \<lambda>path. Inr (before @ rest)\<rparr>)
                   path outputDirectory))"
proof (intro conjI impI)
  show "processPolicies env outputDirectory (policy # rest) (logged, documents) =
           processPolicies env outputDirectory rest
             (logged @ [logger_Warn policy ''No title set, skipping documentation generation.''],
              documents)"
    using assms by simp
next
  assume l: "rego_GetAllSeveritiesWithoutImports env path = Inr (before @ policy # rest)"
  let ?env = "env\<lparr>rego_GetAllSeveritiesWithoutImports := \<lambda>path. Inr (before @ rest)\<rparr>"
  have l': "rego_GetAllSeveritiesWithoutImports ?env path = Inr (before @ rest)"
    by simp
  have s: "sortPoliciesByTitle ?env = sortPoliciesByTitle env"
    by (simp add: sortPoliciesByTitle_def fun_eq_iff)
  show "snd (getDocumentation env path outputDirectory) =
        snd (getDocumentation ?env path outputDirectory)"
    unfolding getDocumentation_snd [OF l] getDocumentation_snd [OF l'] s processPolicies_loader
    using processPolicies_untitled [OF assms] by simp
qed

theorem untitled_policy_skipped_witness:
  "policy_Title untitledPolicy = '''' \<and>
   processPolicies exampleEnv ''/out'' [untitledPolicy] ([], Map.empty) =
     ([logger_Warn untitledPolicy ''No title set, skipping documentation generation.''], Inr Map.empty) \<and>
   rego_GetAllSeveritiesWithoutImports
     (exampleEnv\<lparr>rego_GetAllSeveritiesWithoutImports := \<lambda>path. Inr [untitledPolicy, examplePolicy]\<rparr>) ''.'' =
     Inr ([] @ untitledPolicy # [examplePolicy]) \<and>
   snd (getDocumentation
          (exampleEnv\<lparr>rego_GetAllSeveritiesWithoutImports := \<lambda>path. Inr [untitledPolicy, examplePolicy]\<rparr>)
          ''.'' ''/out'') =
   snd (getDocumentation
          (exampleEnv\<lparr>rego_GetAllSeveritiesWithoutImports := \<lambda>path. Inr [examplePolicy]\<rparr>)
          ''.'' ''/out'')"
proof -
  have t: "policy_Title untitledPolicy = ''''"
    by (simp add: untitledPolicy_def)
  let ?env = "exampleEnv\<lparr>rego_GetAllSeveritiesWithoutImports := \<lambda>path. Inr [untitledPolicy, examplePolicy]\<rparr>"
  have l: "rego_GetAllSeveritiesWithoutImports ?env ''.'' = Inr ([] @ untitledPolicy # [examplePolicy])"
    by simp
  note w = untitled_policy_skipped [OF t, of ?env "''/out''" "[examplePolicy]" _ _ "''.''" "[]"]
  from w [of "[]" Map.empty] have
    "processPolicies exampleEnv ''/out'' [untitledPolicy] ([], Map.empty) =
     ([logger_Warn untitledPolicy ''No title set, skipping documentation generation.''], Inr Map.empty)"
    using t by simp
  moreover from w [of "[]" Map.empty] l have
    "snd (getDocumentation ?env ''.'' ''/out'') =
     snd (getDocumentation
          (exampleEnv\<lparr>rego_GetAllSeveritiesWithoutImports := \<lambda>path. Inr [examplePolicy]\<rparr>)
          ''.'' ''/out'')"
    by simp
  ultimately show ?thesis using t l by simp
qed

section \<open>Legacy matchers that do not parse\<close>

lemma buildDocument_matchers_error:
  assumes "policy_Matchers policy = Inl msg"
  shows "\<exists>err. buildDocument env out policy = ([], Inl err)"
  using assms unfolding buildDocument_def by (auto split: sum.splits)

lemma processPolicies_matchers_error:
  assumes "policy \<in> set policies" "policy_Title policy \<noteq> ''''" "policy_Matchers policy = Inl msg"
  shows "\<exists>err. snd (processPolicies env out policies (logged, documents)) = Inl err"
  using assms(1)
proof (induction policies arbitrary: logged documents)
  case Nil
  then show ?case by simp
next
  case (Cons p ps)
  show ?case
  proof (cases "p = policy")
    case True
    with assms(2) buildDocument_matchers_error [OF assms(3), of env out] show ?thesis by auto
  next
    case False
    with Cons.prems have "policy \<in> set ps" by simp
    from Cons.IH [OF this] show ?thesis
      by (auto split: prod.splits sum.splits)
  qed
qed

text \<open>
  Claim C10. When \<^verbatim>\<open>Matchers()\<close> fails for a policy with a title, the run returns an error
  and no map of documents, whatever the structured kind matchers of the policy are; and
  when the link of that policy resolves, the error of its loop body is the wrapped
  parse error.
\<close>

theorem matchers_error_aborts:
  assumes "rego_GetAllSeveritiesWithoutImports env path = Inr policies"
    and "policy \<in> set policies"
    and "policy_Title policy \<noteq> ''''"
    and "policy_Matchers policy = Inl msg"
  shows "(\<exists>err. snd (getDocumentation env path outputDirectory) = Inl err) \<and>
         (\<forall>url. policyURL env outputDirectory policy = Inr url \<longrightarrow>
            buildDocument env outputDirectory policy = ([], Inl (ParseMatchers msg)))"
proof
  from processPolicies_matchers_error [OF assms(2-4), of env outputDirectory "[]" Map.empty]
  show "\<exists>err. snd (getDocumentation env path outputDirectory) = Inl err"
    unfolding getDocumentation_snd [OF assms(1)] by auto
next
  show "\<forall>url. policyURL env outputDirectory policy = Inr url \<longrightarrow>
            buildDocument env outputDirectory policy = ([], Inl (ParseMatchers msg))"
    using assms(4) by (simp add: buildDocument_def)
qed

theorem matchers_error_aborts_witness:
  "rego_GetAllSeveritiesWithoutImports
     (exampleEnv\<lparr>rego_GetAllSeveritiesWithoutImports := \<lambda>path. Inr [examplePolicy, brokenPolicy]\<rparr>) ''.'' =
     Inr [examplePolicy, brokenPolicy] \<and>
   brokenPolicy \<in> set [examplePolicy, brokenPolicy] \<and>
   policy_Title brokenPolicy \<noteq> '''' \<and>
   policy_Matchers brokenPolicy = Inl ''invalid matchers'' \<and>
   policy_AnnotationKindMatchers brokenPolicy \<noteq> [] \<and>
   (\<exists>err. snd (getDocumentation
                 (exampleEnv\<lparr>rego_GetAllSeveritiesWithoutImports := \<lambda>path. Inr [examplePolicy, brokenPolicy]\<rparr>)
                 ''.'' ''/out'') = Inl err) \<and>
   buildDocument
     (exampleEnv\<lparr>rego_GetAllSeveritiesWithoutImports := \<lambda>path. Inr [examplePolicy, brokenPolicy]\<rparr>)
     ''/out'' brokenPolicy = ([], Inl (ParseMatchers ''invalid matchers''))"
proof -
  let ?env = "exampleEnv\<lparr>rego_GetAllSeveritiesWithoutImports := \<lambda>path. Inr [examplePolicy, brokenPolicy]\<rparr>"
  have l: "rego_GetAllSeveritiesWithoutImports ?env ''.'' = Inr [examplePolicy, brokenPolicy]"
    by simp
  have m: "brokenPolicy \<in> set [examplePolicy, brokenPolicy]"
    by simp
  have t: "policy_Title brokenPolicy \<noteq> ''''"
    by (simp add: brokenPolicy_def examplePolicy_def)
  have e: "policy_Matchers brokenPolicy = Inl ''invalid matchers''"
    by (simp add: brokenPolicy_def)
  have k: "policy_AnnotationKindMatchers brokenPolicy \<noteq> []"
    by (simp add: brokenPolicy_def)
  have u: "policyURL ?env ''/out'' brokenPolicy = Inr ''sub''"
    by code_simp
  from matchers_error_aborts [OF l m t e, of "''/out''"] u l m t e k show ?thesis
    by blast
qed

section \<open>Sorting the buckets\<close>

lemma mset_sift: "mset (sift lt x ys) = add_mset x (mset ys)"
  by (induction ys) auto

lemma set_sift: "set (sift lt x ys) = insert x (set ys)"
  by (induction ys) auto

lemma sorted_sift_title:
  "sorted_wrt (\<lambda>a b. \<not> titleLess a b) ys \<Longrightarrow>
   sorted_wrt (\<lambda>a b. \<not> titleLess a b) (sift titleLess x ys)"
  by (induction ys) (auto simp: set_sift titleLess_def)

lemma foldl_sift:
  "mset (foldl (\<lambda>acc x. sift lt x acc) acc xs) = mset acc + mset xs"
  by (induction xs arbitrary: acc) (auto simp: mset_sift)

lemma foldl_sift_sorted:
  "sorted_wrt (\<lambda>a b. \<not> titleLess a b) acc \<Longrightarrow>
   sorted_wrt (\<lambda>a b. \<not> titleLess a b) (foldl (\<lambda>acc x. sift titleLess x acc) acc xs)"
  by (induction xs arbitrary: acc) (auto simp: sorted_sift_title)

lemma insertionSort_contract: "sort_Slice_contract insertionSort"
  unfolding sort_Slice_contract_def insertionSort_def
  using foldl_sift [of titleLess "[]"] foldl_sift_sorted [of "[]"]
  by (auto simp: sorted_wrt_rev)

lemma sorted_titles:
  "sorted_wrt (\<lambda>a b. \<not> titleLess b a) ds \<Longrightarrow> sorted (map (\<lambda>d. Title (Header d)) ds)"
  by (induction ds) (auto simp: titleLess_def)

lemma getDocumentation_Inr:
  assumes "getDocumentation env path out = (logged, Inr documents)"
  obtains policies unsorted where
    "rego_GetAllSeveritiesWithoutImports env path = Inr policies"
    "snd (processPolicies env out policies ([], Map.empty)) = Inr unsorted"
    "documents = sortPoliciesByTitle env unsorted"
proof (cases "rego_GetAllSeveritiesWithoutImports env path")
  case (Inl e)
  with assms show ?thesis by (simp add: getDocumentation_def)
next
  case (Inr policies)
  from getDocumentation_snd [OF Inr, of out] assms
  have "map_sum id (sortPoliciesByTitle env)
          (snd (processPolicies env out policies ([], Map.empty))) = Inr documents"
    by simp
  then obtain unsorted where
    "snd (processPolicies env out policies ([], Map.empty)) = Inr unsorted"
    "documents = sortPoliciesByTitle env unsorted"
    by (cases "snd (processPolicies env out policies ([], Map.empty))") auto
  with Inr that show ?thesis by blast
qed

text \<open>
  Claim C5. With a \<^verbatim>\<open>sort.Slice\<close> that keeps its contract, every bucket of the map a run
  returns is sorted ascending by title in the byte-wise order of strings, and holds the
  documents the loop appended to that bucket.
\<close>

theorem buckets_sorted_by_title:
  assumes "sort_Slice_contract (sort_Slice env)"
    and "getDocumentation env path outputDirectory = (logged, Inr documents)"
    and "documents key = Some ds"
  shows "sorted (map (\<lambda>d. Title (Header d)) ds) \<and>
         (\<exists>policies unsorted.
            rego_GetAllSeveritiesWithoutImports env path = Inr policies \<and>
            snd (processPolicies env outputDirectory policies ([], Map.empty)) = Inr unsorted \<and>
            mset ds = mset (bucket unsorted key))"
proof -
  from assms(2) obtain policies unsorted where
    l: "rego_GetAllSeveritiesWithoutImports env path = Inr policies" and
    p: "snd (processPolicies env outputDirectory policies ([], Map.empty)) = Inr unsorted" and
    d: "documents = sortPoliciesByTitle env unsorted"
    by (rule getDocumentation_Inr)
  from d assms(3) obtain us where
    u: "unsorted key = Some us" and ds: "ds = sort_Slice env titleLess us"
    by (auto simp: sortPoliciesByTitle_def)
  from assms(1) have c: "mset (sort_Slice env titleLess us) = mset us"
    "sorted_wrt (\<lambda>a b. \<not> titleLess b a) (sort_Slice env titleLess us)"
    by (simp_all add: sort_Slice_contract_def)
  from c(2) ds have "sorted (map (\<lambda>d. Title (Header d)) ds)"
    by (simp add: sorted_titles)
  moreover from c(1) ds u have "mset ds = mset (bucket unsorted key)"
    by (simp add: bucket_def)
  ultimately show ?thesis using l p by blast
qed

text \<open>
  The policies titled \<open>B: Y\<close> and \<open>A: X\<close>, processed in this order, share the bucket
  \<open>high\<close>, which the run returns as \<open>A: X\<close>, \<open>B: Y\<close>.
\<close>

theorem buckets_sorted_by_title_witness:
  "sort_Slice_contract (sort_Slice sortEnv) \<and>
   (\<exists>logged documents unsorted.
      getDocumentation sortEnv ''.'' ''/out'' = (logged, Inr documents) \<and>
      snd (processPolicies sortEnv ''/out'' [policyBY, policyAX] ([], Map.empty)) = Inr unsorted \<and>
      unsorted ''high'' = Some [documentBY, documentAX] \<and>
      documents ''high'' = Some [documentAX, documentBY]) \<and>
   sorted (map (\<lambda>d. Title (Header d)) [documentAX, documentBY])"
proof -
  have c: "sort_Slice_contract (sort_Slice sortEnv)"
    by (simp add: sortEnv_def exampleEnv_def insertionSort_contract)
  have "case getDocumentation sortEnv ''.'' ''/out'' of
          (logged, Inr documents) \<Rightarrow> documents ''high'' = Some [documentAX, documentBY]
        | (logged, Inl err) \<Rightarrow> False"
    by code_simp
  then obtain logged documents where
    g: "getDocumentation sortEnv ''.'' ''/out'' = (logged, Inr documents)" and
    h: "documents ''high'' = Some [documentAX, documentBY]"
    by (auto split: prod.splits sum.splits)
  have "case snd (processPolicies sortEnv ''/out'' [policyBY, policyAX] ([], Map.empty)) of
          Inr unsorted \<Rightarrow> unsorted ''high'' = Some [documentBY, documentAX]
        | Inl err \<Rightarrow> False"
    by code_simp
  then obtain unsorted where
    u: "snd (processPolicies sortEnv ''/out'' [policyBY, policyAX] ([], Map.empty)) = Inr unsorted"
       "unsorted ''high'' = Some [documentBY, documentAX]"
    by (auto split: sum.splits)
  from buckets_sorted_by_title [OF c g h]
  have "sorted (map (\<lambda>d. Title (Header d)) [documentAX, documentBY])"
    by blast
  with c g h u show ?thesis by blast
qed

section \<open>Title and anchor\<close>

lemma ReplaceAll_single:
  "ReplaceAll s [c] new = concat (map (\<lambda>x. if x = c then new else [x]) s)"
  by (induction s) auto

lemma asciiLower_upper:
  assumes "CHR ''A'' \<le> c" "c \<le> CHR ''Z''"
  shows "of_char (asciiLower c) = of_char c + (32::nat)"
proof -
  from assms have "65 \<le> (of_char c :: nat)" "(of_char c :: nat) \<le> 90"
    by (simp_all add: less_eq_char_def)
  then have "(of_char c + 32 :: nat) mod 256 = of_char c + 32"
    by simp
  with assms show ?thesis
    by (simp add: asciiLower_def)
qed

lemma asciiLower_colon: "asciiLower c = CHR '':'' \<longleftrightarrow> c = CHR '':''"
proof (cases "CHR ''A'' \<le> c \<and> c \<le> CHR ''Z''")
  case True
  then have "65 \<le> (of_char c :: nat)" "of_char (asciiLower c) = of_char c + (32::nat)"
    by (simp_all add: less_eq_char_def asciiLower_upper)
  then have "(of_char (asciiLower c) :: nat) \<noteq> of_char CHR '':''"
    "(of_char c :: nat) \<noteq> of_char CHR '':''"
    by simp_all
  then show ?thesis by auto
next
  case False
  then show ?thesis by (auto simp: asciiLower_def)
qed

lemma asciiLower_hyphen: "asciiLower CHR ''-'' = CHR ''-''"
  by (simp add: asciiLower_def less_eq_char_def)

lemma isASCII_hyphens: "isASCII s \<Longrightarrow> isASCII (ReplaceAll s '' '' ''-'')"
  by (induction s) (auto simp: isASCII_def)

lemma anchor_ascii:
  assumes "isASCII title"
  shows "anchor env title =
           concat (map (\<lambda>c. if c = CHR '':'' then [] else if c = CHR '' '' then ''-''
                             else [asciiLower c]) title)"
proof -
  have "ReplaceAll (map asciiLower (ReplaceAll t '' '' ''-'')) '':'' '''' =
          concat (map (\<lambda>c. if c = CHR '':'' then [] else if c = CHR '' '' then ''-''
                            else [asciiLower c]) t)" for t
    by (induction t) (auto simp: ReplaceAll_single asciiLower_colon asciiLower_hyphen)
  with isASCII_hyphens [OF assms] show ?thesis
    by (simp add: anchor_def ToLower_def)
qed

text \<open>
  Claim C3. The title of the header built for a policy is the identifier, a colon, a
  space and the policy's title when the identifier is not empty, and the policy's title
  alone otherwise. The anchor is that title with every space replaced by a hyphen,
  lowercased by \<^verbatim>\<open>strings.ToLower\<close>, with every colon removed. For a title of ASCII bytes
  this is, byte by byte: a colon is dropped, a space becomes a hyphen, and any other
  byte is lowercased.
\<close>

theorem title_and_anchor:
  assumes "buildDocument env outputDirectory policy = (warnings, Inr document)"
  shows "Title (Header document) =
           (if policy_PolicyID policy \<noteq> ''''
            then policy_PolicyID policy @ '': '' @ policy_Title policy
            else policy_Title policy) \<and>
         Anchor (Header document) =
           ReplaceAll (ToLower (unicode_ToLower env) (ReplaceAll (Title (Header document)) '' '' ''-''))
             '':'' '''' \<and>
         (isASCII (Title (Header document)) \<longrightarrow>
            Anchor (Header document) =
              concat (map (\<lambda>c. if c = CHR '':'' then [] else if c = CHR '' '' then ''-''
                                else [asciiLower c])
                        (Title (Header document))))"
  using assms
  by (elim buildDocument_Inr) (simp add: documentTitle_def anchor_ascii, simp add: anchor_def)

theorem title_and_anchor_witness:
  "buildDocument exampleEnv ''/out'' examplePolicy = ([], Inr exampleBuilt) \<and>
   policy_PolicyID examplePolicy = ''POL-1'' \<and>
   policy_Title examplePolicy = ''Require Labels'' \<and>
   Title (Header exampleBuilt) = ''POL-1: Require Labels'' \<and>
   isASCII (Title (Header exampleBuilt)) \<and>
   Anchor (Header exampleBuilt) = ''pol-1-require-labels''"
proof -
  have a: "isASCII (Title (Header exampleBuilt))"
    by code_simp
  note w = title_and_anchor [OF example_built]
  from w have t: "Title (Header exampleBuilt) = ''POL-1: Require Labels''"
    by (simp add: examplePolicy_def)
  from w a have "Anchor (Header exampleBuilt) =
      concat (map (\<lambda>c. if c = CHR '':'' then [] else if c = CHR '' '' then ''-''
                        else [asciiLower c]) (Title (Header exampleBuilt)))"
    by blast
  also have "\<dots> = ''pol-1-require-labels''"
    unfolding t by code_simp
  finally show ?thesis
    using a t example_built by (simp add: examplePolicy_def)
qed

section \<open>Concatenation loops\<close>

lemma foldl_append_concat:
  "foldl (\<lambda>acc x. acc @ f x) acc xs = acc @ concat (map f xs)"
  by (induction xs arbitrary: acc) auto

lemma concat_map_sep:
  "es \<noteq> [] \<Longrightarrow> concat (map (\<lambda>e. e @ sep) es) = Join es sep @ sep"
  by (induction es sep rule: Join.induct) auto

lemma TrimSuffix_append: "TrimSuffix (s @ suf) suf = s"
  by (simp add: TrimSuffix_def suffix_def)

lemma TrimSuffix_concat:
  "TrimSuffix (concat (map (\<lambda>e. e @ sep) es)) sep = Join es sep"
proof (cases es)
  case Nil
  then show ?thesis by (simp add: TrimSuffix_def)
next
  case (Cons e es')
  then show ?thesis
    using concat_map_sep [of es sep] by (simp add: TrimSuffix_append)
qed

section \<open>The label selector\<close>

lemma labelSelectorDocString_Join:
  "labelSelectorDocString selector =
     Join (map (\<lambda>(k, v). k @ ''='' @ v) (selector_MatchLabels selector) @
           map (\<lambda>expr. Key expr @ '' '' @ Operator expr @ '' '' @ fmt_v (Values expr))
             (selector_MatchExpressions selector)) '', ''"
proof -
  have l: "foldl (\<lambda>result (k, v). result @ k @ ''='' @ v @ '', '') '''' labels =
        concat (map (\<lambda>e. e @ '', '') (map (\<lambda>(k, v). k @ ''='' @ v) labels))" for labels
    using foldl_append_concat [of "\<lambda>(k, v). k @ ''='' @ v @ '', ''" "''''" labels]
    by (simp add: case_prod_unfold comp_def)
  have e: "foldl (\<lambda>result expr. result @ Key expr @ '' '' @ Operator expr @ '' '' @ fmt_v (Values expr) @ '', '') acc exprs =
        acc @ concat (map (\<lambda>e. e @ '', '')
          (map (\<lambda>expr. Key expr @ '' '' @ Operator expr @ '' '' @ fmt_v (Values expr)) exprs))" for acc exprs
    using foldl_append_concat [of "\<lambda>expr. Key expr @ '' '' @ Operator expr @ '' '' @ fmt_v (Values expr) @ '', ''" acc exprs]
    by (simp add: comp_def)
  show ?thesis
    unfolding labelSelectorDocString_def Let_def l e
    using TrimSuffix_concat [of "'', ''"
      "map (\<lambda>(k, v). k @ ''='' @ v) (selector_MatchLabels selector) @
           map (\<lambda>expr. Key expr @ '' '' @ Operator expr @ '' '' @ fmt_v (Values expr))
             (selector_MatchExpressions selector)"]
    by simp
qed

text \<open>
  Claim C9, as stated, fails: ranging over the one label map \<open>app=web\<close>, \<open>tier=db\<close> in
  the order \<open>tier\<close>, \<open>app\<close> renders \<open>tier\<close> first, so the keys are not enumerated in
  sorted order, and the two orders give two different strings for the same selector.
\<close>

theorem match_labels_sorted_counterexample:
  "map_of (selector_MatchLabels selectorBA) = map_of (selector_MatchLabels selectorAB) \<and>
   distinct (map fst (selector_MatchLabels selectorBA)) \<and>
   selector_MatchExpressions selectorBA = selector_MatchExpressions selectorAB \<and>
   labelSelectorDocString selectorAB = ''app=web, tier=db, env In [prod qa]'' \<and>
   labelSelectorDocString selectorBA = ''tier=db, app=web, env In [prod qa]'' \<and>
   labelSelectorDocString selectorBA \<noteq> labelSelectorDocString selectorAB"
proof -
  have m: "map_of (selector_MatchLabels selectorBA) = map_of (selector_MatchLabels selectorAB)"
    by (auto simp: selectorAB_def selectorBA_def fun_eq_iff)
  have d: "distinct (map fst (selector_MatchLabels selectorBA))"
    by (simp add: selectorBA_def)
  have e: "selector_MatchExpressions selectorBA = selector_MatchExpressions selectorAB"
    by (simp add: selectorAB_def selectorBA_def)
  have ab: "labelSelectorDocString selectorAB = ''app=web, tier=db, env In [prod qa]''"
    by code_simp
  have ba: "labelSelectorDocString selectorBA = ''tier=db, app=web, env In [prod qa]''"
    by code_simp
  from m d e ab ba show ?thesis by simp
qed

text \<open>
  Claim C9, amended. With a structured label selector, the label string of the header is
  the exact-match labels rendered as \<open>key=value\<close> in the order in which the run
  enumerates the label map, followed by the expressions rendered as the key, the
  operator and the bracketed values, all joined by a comma and a space with no trailing
  separator. Without a structured selector it is the legacy label string.
\<close>

theorem match_labels_rendering:
  assumes "buildDocument env outputDirectory policy = (warnings, Inr document)"
    and "policy_Matchers policy = Inr legacyMatchers"
  shows "MatchLabels (Header document) =
           (case policy_AnnotationLabelSelectorMatcher policy of
              Some selector \<Rightarrow>
                Join (map (\<lambda>(k, v). k @ ''='' @ v) (selector_MatchLabels selector) @
                      map (\<lambda>expr. Key expr @ '' '' @ Operator expr @ '' '' @
                                   ''['' @ Join (Values expr) '' '' @ '']'')
                        (selector_MatchExpressions selector)) '', ''
            | None \<Rightarrow> MatchLabelsMatcher_String legacyMatchers)"
  using assms
  by (elim buildDocument_Inr) (simp add: matchLabels_def labelSelectorDocString_Join fmt_v_def split: option.splits)

theorem match_labels_rendering_witness:
  "(\<exists>document.
      buildDocument exampleEnv ''/out'' selectorPolicy = ([], Inr document) \<and>
      policy_AnnotationLabelSelectorMatcher selectorPolicy = Some selectorBA \<and>
      MatchLabels (Header document) = ''tier=db, app=web, env In [prod qa]'') \<and>
   buildDocument exampleEnv ''/out'' examplePolicy = ([], Inr exampleBuilt) \<and>
   policy_AnnotationLabelSelectorMatcher examplePolicy = None \<and>
   MatchLabels (Header exampleBuilt) = ''team=a''"
proof -
  have m: "policy_Matchers selectorPolicy = Inr \<lparr>KindMatchers_String = ''core/Pod'', MatchLabelsMatcher_String = ''team=a''\<rparr>"
    "policy_Matchers examplePolicy = Inr \<lparr>KindMatchers_String = ''core/Pod'', MatchLabelsMatcher_String = ''team=a''\<rparr>"
    by (simp_all add: selectorPolicy_def examplePolicy_def)
  have s: "policy_AnnotationLabelSelectorMatcher selectorPolicy = Some selectorBA"
    "policy_AnnotationLabelSelectorMatcher examplePolicy = None"
    by (simp_all add: selectorPolicy_def examplePolicy_def)
  have "case buildDocument exampleEnv ''/out'' selectorPolicy of
          (warnings, Inr document) \<Rightarrow> warnings = [] | (warnings, Inl err) \<Rightarrow> False"
    by code_simp
  then obtain document where b: "buildDocument exampleEnv ''/out'' selectorPolicy = ([], Inr document)"
    by (auto split: prod.splits sum.splits)
  have j: "Join (map (\<lambda>(k, v). k @ ''='' @ v) (selector_MatchLabels selectorBA) @
                 map (\<lambda>expr. Key expr @ '' '' @ Operator expr @ '' '' @ ''['' @ Join (Values expr) '' '' @ '']'')
                   (selector_MatchExpressions selectorBA)) '', '' = ''tier=db, app=web, env In [prod qa]''"
    by code_simp
  from match_labels_rendering [OF b m(1)] j
  have "MatchLabels (Header document) = ''tier=db, app=web, env In [prod qa]''"
    unfolding s by simp
  moreover from match_labels_rendering [OF example_built m(2)] have "MatchLabels (Header exampleBuilt) = ''team=a''"
    unfolding s by simp
  ultimately show ?thesis using b s example_built by blast
qed

section \<open>White space around the resources\<close>

lemma suffix_single_snoc: "suffix [c] (ys @ [d]) \<longleftrightarrow> c = d"
  by (auto simp: suffix_def)

lemma trailingSpace_snoc_space: "trailingSpace (s @ '' '') = 1"
  by (simp add: trailingSpace_def spaceEncodings_def suffix_single_snoc)

lemma TrimRightSpace_snoc_space: "TrimRightSpace (s @ '' '') = TrimRightSpace s"
  by (subst TrimRightSpace.simps) (simp add: trailingSpace_snoc_space)

lemma spaceEncodings_last:
  "e \<in> set spaceEncodings \<Longrightarrow> length e = 1 \<or> last e \<noteq> CHR '' ''"
  by (auto simp: spaceEncodings_def)

lemma spaceEncodings_nonempty: "e \<in> set spaceEncodings \<Longrightarrow> e \<noteq> []"
  by (auto simp: spaceEncodings_def)

lemma prefix_snoc_space:
  assumes "e \<in> set spaceEncodings" "s \<noteq> []"
  shows "prefix e (s @ '' '') \<longleftrightarrow> prefix e s"
proof -
  have "e \<noteq> s @ '' ''"
  proof
    assume "e = s @ '' ''"
    with assms(2) have "length e \<noteq> 1" "last e = CHR '' ''" by (cases s; simp)+
    with spaceEncodings_last [OF assms(1)] show False by simp
  qed
  then show ?thesis by (simp add: prefix_snoc)
qed

lemma leadingSpace_snoc_space:
  assumes "s \<noteq> []"
  shows "leadingSpace (s @ '' '') = leadingSpace s"
proof -
  have "find (\<lambda>e. prefix e (s @ '' '')) spaceEncodings = find (\<lambda>e. prefix e s) spaceEncodings"
  proof (rule find_cong [OF refl])
    fix e assume "e \<in> set spaceEncodings"
    then show "prefix e (s @ '' '') = prefix e s"
      by (rule prefix_snoc_space [OF _ assms])
  qed
  then show ?thesis by (simp add: leadingSpace_def)
qed

lemma leadingSpace_Nil: "leadingSpace [] = 0"
  by (simp add: leadingSpace_def spaceEncodings_def)

lemma leadingSpace_space: "leadingSpace '' '' = 1"
  by (simp add: leadingSpace_def spaceEncodings_def)

lemma TrimLeftSpace_Nil: "TrimLeftSpace [] = []"
  by (subst TrimLeftSpace.simps) (simp add: leadingSpace_Nil)

lemma TrimLeftSpace_snoc_space:
  "TrimLeftSpace (s @ '' '') = (if TrimLeftSpace s = [] then [] else TrimLeftSpace s @ '' '')"
proof (induction s rule: TrimLeftSpace.induct)
  case (1 s)
  show ?case
  proof (cases "s = []")
    case True
    have "TrimLeftSpace '' '' = []"
      by (subst TrimLeftSpace.simps) (simp add: leadingSpace_space TrimLeftSpace_Nil)
    with True show ?thesis by (simp add: TrimLeftSpace_Nil)
  next
    case False
    note l = leadingSpace_snoc_space [OF False]
    show ?thesis
    proof (cases "leadingSpace s = 0")
      case True
      then have "TrimLeftSpace s = s" "TrimLeftSpace (s @ '' '') = s @ '' ''"
        using l by (subst TrimLeftSpace.simps, simp)+
      with False show ?thesis by simp
    next
      case nz: False
      have a: "TrimLeftSpace s = TrimLeftSpace (drop (leadingSpace s) s)"
        using nz by (subst TrimLeftSpace.simps) simp
      have "TrimLeftSpace (s @ '' '') = TrimLeftSpace (drop (leadingSpace s) (s @ '' ''))"
        using nz l by (subst TrimLeftSpace.simps) simp
      also have "drop (leadingSpace s) (s @ '' '') = drop (leadingSpace s) s @ '' ''"
        using leadingSpace_le [of s] by simp
      finally show ?thesis
        using "1.IH" [OF nz] a by simp
    qed
  qed
qed

lemma TrimRightSpace_Nil: "TrimRightSpace [] = []"
  by (subst TrimRightSpace.simps) (simp add: trailingSpace_def spaceEncodings_def)

lemma TrimSpace_snoc_space: "TrimSpace (s @ '' '') = TrimSpace s"
  by (simp add: TrimSpace_def TrimLeftSpace_snoc_space TrimRightSpace_snoc_space TrimRightSpace_Nil)

lemma matchResources_loop:
  "akms \<noteq> [] \<Longrightarrow>
   TrimSpace (foldl (\<lambda>acc akm. acc @ akm @ '' '') '''' akms) = TrimSpace (Join akms '' '')"
  using foldl_append_concat [of "\<lambda>akm. akm @ '' ''" "''''" akms] concat_map_sep [of akms "'' ''"]
    TrimSpace_snoc_space [of "Join akms '' ''"]
  by simp

lemma leadingSpace_zero:
  "leadingSpace s = 0 \<longleftrightarrow> (\<forall>e\<in>set spaceEncodings. \<not> prefix e s)"
proof
  assume z: "leadingSpace s = 0"
  show "\<forall>e\<in>set spaceEncodings. \<not> prefix e s"
  proof (cases "find (\<lambda>e. prefix e s) spaceEncodings")
    case None
    then show ?thesis by (simp add: find_None_iff)
  next
    case (Some e)
    then have "e \<in> set spaceEncodings"
      by (auto simp: find_Some_iff)
    with spaceEncodings_nonempty [of e] Some z show ?thesis
      by (simp add: leadingSpace_def)
  qed
next
  assume "\<forall>e\<in>set spaceEncodings. \<not> prefix e s"
  then have "find (\<lambda>e. prefix e s) spaceEncodings = None"
    by (simp add: find_None_iff)
  then show "leadingSpace s = 0"
    by (simp add: leadingSpace_def)
qed

lemma trailingSpace_zero:
  "trailingSpace s = 0 \<longleftrightarrow> (\<forall>e\<in>set spaceEncodings. \<not> suffix e s)"
proof
  assume z: "trailingSpace s = 0"
  show "\<forall>e\<in>set spaceEncodings. \<not> suffix e s"
  proof (cases "find (\<lambda>e. suffix e s) spaceEncodings")
    case None
    then show ?thesis by (simp add: find_None_iff)
  next
    case (Some e)
    then have "e \<in> set spaceEncodings"
      by (auto simp: find_Some_iff)
    with spaceEncodings_nonempty [of e] Some z show ?thesis
      by (simp add: trailingSpace_def)
  qed
next
  assume "\<forall>e\<in>set spaceEncodings. \<not> suffix e s"
  then have "find (\<lambda>e. suffix e s) spaceEncodings = None"
    by (simp add: find_None_iff)
  then show "trailingSpace s = 0"
    by (simp add: trailingSpace_def)
qed

lemma leadingSpace_prefix:
  assumes "leadingSpace s \<noteq> 0"
  obtains e where "e \<in> set spaceEncodings" "s = e @ drop (leadingSpace s) s"
proof -
  from assms obtain e where f: "find (\<lambda>e. prefix e s) spaceEncodings = Some e"
    by (cases "find (\<lambda>e. prefix e s) spaceEncodings") (auto simp: leadingSpace_def)
  then have "e \<in> set spaceEncodings" "prefix e s"
    by (auto simp: find_Some_iff)
  moreover from f have "leadingSpace s = length e"
    by (simp add: leadingSpace_def)
  ultimately show ?thesis
    using that by (auto simp: prefix_def)
qed

lemma trailingSpace_suffix:
  assumes "trailingSpace s \<noteq> 0"
  obtains e where "e \<in> set spaceEncodings" "s = take (length s - trailingSpace s) s @ e"
proof -
  from assms obtain e where f: "find (\<lambda>e. suffix e s) spaceEncodings = Some e"
    by (cases "find (\<lambda>e. suffix e s) spaceEncodings") (auto simp: trailingSpace_def)
  then have "e \<in> set spaceEncodings" "suffix e s"
    by (auto simp: find_Some_iff)
  moreover from f have "trailingSpace s = length e"
    by (simp add: trailingSpace_def)
  ultimately show ?thesis
    using that by (auto simp: suffix_def)
qed

lemma TrimLeftSpace_removes:
  "\<exists>leading. set leading \<subseteq> set spaceEncodings \<and> s = concat leading @ TrimLeftSpace s \<and>
             (\<forall>e\<in>set spaceEncodings. \<not> prefix e (TrimLeftSpace s))"
proof (induction s rule: TrimLeftSpace.induct)
  case (1 s)
  show ?case
  proof (cases "leadingSpace s = 0")
    case True
    then have "TrimLeftSpace s = s"
      by (subst TrimLeftSpace.simps) simp
    with True show ?thesis
      by (intro exI [of _ "[]"]) (simp add: leadingSpace_zero)
  next
    case False
    then have t: "TrimLeftSpace s = TrimLeftSpace (drop (leadingSpace s) s)"
      by (subst TrimLeftSpace.simps) simp
    from "1.IH" [OF False] obtain leading where
      l: "set leading \<subseteq> set spaceEncodings"
         "drop (leadingSpace s) s = concat leading @ TrimLeftSpace (drop (leadingSpace s) s)"
         "\<forall>e\<in>set spaceEncodings. \<not> prefix e (TrimLeftSpace (drop (leadingSpace s) s))"
      by blast
    from False obtain e where e: "e \<in> set spaceEncodings" "s = e @ drop (leadingSpace s) s"
      by (rule leadingSpace_prefix)
    from e(2) l(2) have "s = concat (e # leading) @ TrimLeftSpace s"
      unfolding t by simp
    with e(1) l(1,3) show ?thesis
      unfolding t by (intro exI [of _ "e # leading"]) simp
  qed
qed

lemma TrimRightSpace_removes:
  "\<exists>trailing. set trailing \<subseteq> set spaceEncodings \<and> s = TrimRightSpace s @ concat trailing \<and>
             (\<forall>e\<in>set spaceEncodings. \<not> suffix e (TrimRightSpace s))"
proof (induction s rule: TrimRightSpace.induct)
  case (1 s)
  show ?case
  proof (cases "trailingSpace s = 0")
    case True
    then have "TrimRightSpace s = s"
      by (subst TrimRightSpace.simps) simp
    with True show ?thesis
      by (intro exI [of _ "[]"]) (simp add: trailingSpace_zero)
  next
    case False
    let ?s' = "take (length s - trailingSpace s) s"
    from False have t: "TrimRightSpace s = TrimRightSpace ?s'"
      by (subst TrimRightSpace.simps) simp
    from "1.IH" [OF False] obtain trailing where
      l: "set trailing \<subseteq> set spaceEncodings"
         "?s' = TrimRightSpace ?s' @ concat trailing"
         "\<forall>e\<in>set spaceEncodings. \<not> suffix e (TrimRightSpace ?s')"
      by blast
    from False obtain e where e: "e \<in> set spaceEncodings" "s = ?s' @ e"
      by (rule trailingSpace_suffix)
    from e(2) l(2) have "s = TrimRightSpace s @ concat (trailing @ [e])"
      unfolding t by (metis append.assoc concat.simps(1,2) concat_append append_Nil2)
    with e(1) l(1,3) show ?thesis
      unfolding t by (intro exI [of _ "trailing @ [e]"]) simp
  qed
qed

lemma TrimSpace_removes:
  "\<exists>leading trailing.
     set leading \<subseteq> set spaceEncodings \<and> set trailing \<subseteq> set spaceEncodings \<and>
     s = concat leading @ TrimSpace s @ concat trailing \<and>
     (\<forall>e\<in>set spaceEncodings. \<not> prefix e (TrimSpace s) \<and> \<not> suffix e (TrimSpace s))"
proof -
  from TrimLeftSpace_removes [of s] obtain leading where
    l: "set leading \<subseteq> set spaceEncodings" "s = concat leading @ TrimLeftSpace s"
       "\<forall>e\<in>set spaceEncodings. \<not> prefix e (TrimLeftSpace s)"
    by blast
  from TrimRightSpace_removes [of "TrimLeftSpace s"] obtain trailing where
    r: "set trailing \<subseteq> set spaceEncodings" "TrimLeftSpace s = TrimSpace s @ concat trailing"
       "\<forall>e\<in>set spaceEncodings. \<not> suffix e (TrimSpace s)"
    unfolding TrimSpace_def by blast
  have "\<not> prefix e (TrimSpace s)" if "e \<in> set spaceEncodings" for e
  proof
    assume "prefix e (TrimSpace s)"
    then have "prefix e (TrimLeftSpace s)"
      using r(2) by (metis prefix_prefix)
    with l(3) that show False by blast
  qed
  with l r show ?thesis
    by (intro exI [of _ leading] exI [of _ trailing]) (metis append.assoc)
qed

text \<open>
  Claim C4. When the link, the legacy matchers and the parameters of a policy resolve,
  its document is built, and the resources of the header come from the structured kind
  matchers when there are any (their renderings joined by one space, with the
  surrounding white space trimmed) and from the legacy kind-matcher string otherwise.
  When that string is empty the field is \<open>Any Resource\<close> and the loop body logs exactly
  one warning; otherwise it logs none. Trimmed means: the joined renderings are the
  resources string between a run of encoded white-space runes on the left and one on the
  right, and the resources string neither starts nor ends with an encoded white-space
  rune.
\<close>

theorem resources_resolution:
  assumes "policyURL env outputDirectory policy = Inr url"
    and "policy_Matchers policy = Inr legacyMatchers"
    and "parameters policy = Inr params"
    and "resources =
           (if policy_AnnotationKindMatchers policy \<noteq> []
            then TrimSpace (Join (policy_AnnotationKindMatchers policy) '' '')
            else KindMatchers_String legacyMatchers)"
  shows "(\<exists>document.
           buildDocument env outputDirectory policy =
             (if resources = ''''
              then [logger_Warn policy ''No kind matchers set, this can lead to poor policy performance.'']
              else [],
              Inr document) \<and>
           Resources (Header document) = (if resources = '''' then ''Any Resource'' else resources)) \<and>
         (policy_AnnotationKindMatchers policy \<noteq> [] \<longrightarrow>
            (\<exists>leading trailing.
               set leading \<subseteq> set spaceEncodings \<and> set trailing \<subseteq> set spaceEncodings \<and>
               Join (policy_AnnotationKindMatchers policy) '' '' =
                 concat leading @ resources @ concat trailing \<and>
               (\<forall>e\<in>set spaceEncodings. \<not> prefix e resources \<and> \<not> suffix e resources)))"
proof
  have "matchResources policy legacyMatchers =
          (if resources = ''''
           then ([logger_Warn policy ''No kind matchers set, this can lead to poor policy performance.''],
                 ''Any Resource'')
           else ([], resources))"
    unfolding matchResources_def assms(4) Let_def
    using matchResources_loop [of "policy_AnnotationKindMatchers policy"]
    by simp
  then show "\<exists>document.
           buildDocument env outputDirectory policy =
             (if resources = ''''
              then [logger_Warn policy ''No kind matchers set, this can lead to poor policy performance.'']
              else [],
              Inr document) \<and>
           Resources (Header document) = (if resources = '''' then ''Any Resource'' else resources)"
    unfolding buildDocument_ok [OF assms(1-3)] by simp
next
  show "policy_AnnotationKindMatchers policy \<noteq> [] \<longrightarrow>
            (\<exists>leading trailing.
               set leading \<subseteq> set spaceEncodings \<and> set trailing \<subseteq> set spaceEncodings \<and>
               Join (policy_AnnotationKindMatchers policy) '' '' =
                 concat leading @ resources @ concat trailing \<and>
               (\<forall>e\<in>set spaceEncodings. \<not> prefix e resources \<and> \<not> suffix e resources))"
    using TrimSpace_removes [of "Join (policy_AnnotationKindMatchers policy) '' ''"] assms(4)
    by simp
qed

theorem resources_resolution_witness:
  "policyURL exampleEnv ''/out'' unmatchedPolicy = Inr ''sub'' \<and>
   policy_Matchers unmatchedPolicy = Inr \<lparr>KindMatchers_String = '''', MatchLabelsMatcher_String = ''''\<rparr> \<and>
   parameters unmatchedPolicy = Inr [] \<and>
   policy_AnnotationKindMatchers unmatchedPolicy = [] \<and>
   (\<exists>document.
      buildDocument exampleEnv ''/out'' unmatchedPolicy =
        ([logger_Warn unmatchedPolicy ''No kind matchers set, this can lead to poor policy performance.''],
         Inr document) \<and>
      Resources (Header document) = ''Any Resource'') \<and>
   policyURL exampleEnv ''/out'' paddedPolicy = Inr ''sub'' \<and>
   policy_Matchers paddedPolicy = Inr \<lparr>KindMatchers_String = ''core/Pod'', MatchLabelsMatcher_String = ''team=a''\<rparr> \<and>
   parameters paddedPolicy = Inr [] \<and>
   policy_AnnotationKindMatchers paddedPolicy =
     [[CHR 0xC2, CHR 0xA0] @ ''apps/Deployment'', ''core/Pod'' @ [CHR 0x09, CHR 0x20]] \<and>
   (\<exists>document.
      buildDocument exampleEnv ''/out'' paddedPolicy = ([], Inr document) \<and>
      Resources (Header document) = ''apps/Deployment core/Pod'') \<and>
   (\<exists>leading trailing.
      set leading \<subseteq> set spaceEncodings \<and> set trailing \<subseteq> set spaceEncodings \<and>
      [CHR 0xC2, CHR 0xA0] @ ''apps/Deployment core/Pod'' @ [CHR 0x09, CHR 0x20] =
        concat leading @ ''apps/Deployment core/Pod'' @ concat trailing) \<and>
   policyURL exampleEnv ''/out'' blankPolicy = Inr ''sub'' \<and>
   parameters blankPolicy = Inr [] \<and>
   policy_AnnotationKindMatchers blankPolicy = ['' '', [CHR 0x09]] \<and>
   (\<exists>document.
      buildDocument exampleEnv ''/out'' blankPolicy =
        ([logger_Warn blankPolicy ''No kind matchers set, this can lead to poor policy performance.''],
         Inr document) \<and>
      Resources (Header document) = ''Any Resource'')"
proof -
  let ?lm = "\<lparr>KindMatchers_String = ''core/Pod'', MatchLabelsMatcher_String = ''team=a''\<rparr>"
  have u: "policyURL exampleEnv ''/out'' unmatchedPolicy = Inr ''sub''"
    by code_simp
  have m: "policy_Matchers unmatchedPolicy = Inr \<lparr>KindMatchers_String = '''', MatchLabelsMatcher_String = ''''\<rparr>"
    by (simp add: unmatchedPolicy_def)
  have p: "parameters unmatchedPolicy = Inr []"
    by (simp add: unmatchedPolicy_def examplePolicy_def parameters_def)
  have k: "policy_AnnotationKindMatchers unmatchedPolicy = []"
    by (simp add: unmatchedPolicy_def examplePolicy_def)
  have r: "'''' = (if policy_AnnotationKindMatchers unmatchedPolicy \<noteq> []
                 then TrimSpace (Join (policy_AnnotationKindMatchers unmatchedPolicy) '' '')
                 else KindMatchers_String \<lparr>KindMatchers_String = '''', MatchLabelsMatcher_String = ''''\<rparr>)"
    by (simp add: k)
  have u': "policyURL exampleEnv ''/out'' paddedPolicy = Inr ''sub''"
    by code_simp
  have m': "policy_Matchers paddedPolicy = Inr ?lm"
    by (simp add: paddedPolicy_def examplePolicy_def)
  have p': "parameters paddedPolicy = Inr []"
    by (simp add: paddedPolicy_def examplePolicy_def parameters_def)
  have k': "policy_AnnotationKindMatchers paddedPolicy =
     [[CHR 0xC2, CHR 0xA0] @ ''apps/Deployment'', ''core/Pod'' @ [CHR 0x09, CHR 0x20]]"
    by (simp add: paddedPolicy_def)
  have j': "Join (policy_AnnotationKindMatchers paddedPolicy) '' '' =
      [CHR 0xC2, CHR 0xA0] @ ''apps/Deployment core/Pod'' @ [CHR 0x09, CHR 0x20]"
    by (simp add: k')
  have "TrimSpace (Join (policy_AnnotationKindMatchers paddedPolicy) '' '') = ''apps/Deployment core/Pod''"
    by code_simp
  then have r': "''apps/Deployment core/Pod'' =
                (if policy_AnnotationKindMatchers paddedPolicy \<noteq> []
                 then TrimSpace (Join (policy_AnnotationKindMatchers paddedPolicy) '' '')
                 else KindMatchers_String ?lm)"
    by (simp add: k')
  have u'': "policyURL exampleEnv ''/out'' blankPolicy = Inr ''sub''"
    by code_simp
  have m'': "policy_Matchers blankPolicy = Inr ?lm"
    by (simp add: blankPolicy_def examplePolicy_def)
  have p'': "parameters blankPolicy = Inr []"
    by (simp add: blankPolicy_def examplePolicy_def parameters_def)
  have k'': "policy_AnnotationKindMatchers blankPolicy = ['' '', [CHR 0x09]]"
    by (simp add: blankPolicy_def)
  have "TrimSpace (Join (policy_AnnotationKindMatchers blankPolicy) '' '') = ''''"
    by code_simp
  then have r'': "'''' =
                (if policy_AnnotationKindMatchers blankPolicy \<noteq> []
                 then TrimSpace (Join (policy_AnnotationKindMatchers blankPolicy) '' '')
                 else KindMatchers_String ?lm)"
    by (simp add: k'')
  note a = resources_resolution [OF u m p r, THEN conjunct1]
  note b = resources_resolution [OF u' m' p' r', THEN conjunct1]
  note b' = resources_resolution [OF u' m' p' r', THEN conjunct2]
  note c = resources_resolution [OF u'' m'' p'' r'', THEN conjunct1]
  from a have 1: "\<exists>document.
      buildDocument exampleEnv ''/out'' unmatchedPolicy =
        ([logger_Warn unmatchedPolicy ''No kind matchers set, this can lead to poor policy performance.''],
         Inr document) \<and>
      Resources (Header document) = ''Any Resource''"
    by (simp only: simp_thms if_True)
  have ne: "''apps/Deployment core/Pod'' \<noteq> ''''"
    by simp
  from b have 2: "\<exists>document.
      buildDocument exampleEnv ''/out'' paddedPolicy = ([], Inr document) \<and>
      Resources (Header document) = ''apps/Deployment core/Pod''"
    by (simp only: ne if_False)
  have "policy_AnnotationKindMatchers paddedPolicy \<noteq> []"
    by (simp add: k')
  from b' [rule_format, OF this] obtain leading trailing where
    "set leading \<subseteq> set spaceEncodings" "set trailing \<subseteq> set spaceEncodings"
    "Join (policy_AnnotationKindMatchers paddedPolicy) '' '' =
       concat leading @ ''apps/Deployment core/Pod'' @ concat trailing"
    by blast
  then have 3: "\<exists>leading trailing.
      set leading \<subseteq> set spaceEncodings \<and> set trailing \<subseteq> set spaceEncodings \<and>
      [CHR 0xC2, CHR 0xA0] @ ''apps/Deployment core/Pod'' @ [CHR 0x09, CHR 0x20] =
        concat leading @ ''apps/Deployment core/Pod'' @ concat trailing"
    unfolding j' by blast
  from c have 4: "\<exists>document.
      buildDocument exampleEnv ''/out'' blankPolicy =
        ([logger_Warn blankPolicy ''No kind matchers set, this can lead to poor policy performance.''],
         Inr document) \<and>
      Resources (Header document) = ''Any Resource''"
    by (simp only: simp_thms if_True)
  from 1 2 3 4 u m p k u' m' p' k' u'' p'' k'' show ?thesis
    by (intro conjI) assumption+
qed

section \<open>Structured parameters\<close>

lemma annoParamsToLegacyFormat_loop_ok:
  assumes "\<forall>(param, config) \<in> set ps.
             schema_Type config = ''array'' \<longrightarrow>
             (\<exists>items schema. schema_Items config = Some items \<and> Schema items = Some schema)"
  shows "annoParamsToLegacyFormat_loop results ps =
           Inr (results @
                map (\<lambda>(param, config).
                       if schema_Type config = ''array''
                       then \<lparr>Name = param, ParamDescription = schema_Description config, IsArray = True,
                             Type = schema_Type (the (Schema (the (schema_Items config))))\<rparr>
                       else \<lparr>Name = param, ParamDescription = schema_Description config, IsArray = False,
                             Type = schema_Type config\<rparr>) ps)"
  using assms
  by (induction results ps rule: annoParamsToLegacyFormat_loop.induct) auto

lemma annoParamsToLegacyFormat_loop_panic:
  assumes "(param, config) \<in> set ps" "schema_Type config = ''array''"
    "schema_Items config = None \<or> (\<exists>items. schema_Items config = Some items \<and> Schema items = None)"
  shows "annoParamsToLegacyFormat_loop results ps = Inl NilPointerDereference"
  using assms
  by (induction results ps rule: annoParamsToLegacyFormat_loop.induct)
     (auto split: option.splits)

lemma parameters_resolved:
  assumes "\<forall>(param, config) \<in> set (policy_AnnotationParameters policy).
             schema_Type config = ''array'' \<longrightarrow>
             (\<exists>items schema. schema_Items config = Some items \<and> Schema items = Some schema)"
  shows "parameters policy =
           Inr (if policy_AnnotationParameters policy \<noteq> []
                then map (\<lambda>(param, config).
                            if schema_Type config = ''array''
                            then \<lparr>Name = param, ParamDescription = schema_Description config,
                                  IsArray = True,
                                  Type = schema_Type (the (Schema (the (schema_Items config))))\<rparr>
                            else \<lparr>Name = param, ParamDescription = schema_Description config,
                                  IsArray = False, Type = schema_Type config\<rparr>)
                       (policy_AnnotationParameters policy)
                else policy_Parameters policy)"
  using annoParamsToLegacyFormat_loop_ok [OF assms, of "[]"]
  by (simp add: parameters_def annoParamsToLegacyFormat_def)

lemma parameters_arrayPolicy:
  "parameters arrayPolicy =
     Inr [\<lparr>Name = ''tags'', ParamDescription = ''Allowed tags'', IsArray = True, Type = ''string''\<rparr>]"
  by code_simp

text \<open>
  Claim C7 holds for every structured parameter mapping in which each entry of type
  array carries an item schema (\<open>parameters_resolved\<close>), but not for every mapping: on an
  entry of type array without \<^verbatim>\<open>items\<close> line 259 dereferences a nil pointer, no
  parameter is produced, and the run ends without documents.
\<close>

theorem array_without_items_panics:
  "policy_Title bareArrayPolicy \<noteq> '''' \<and>
   policy_AnnotationParameters bareArrayPolicy = [(''tags'', JSONSchemaProps ''array'' ''Allowed tags'' None)] \<and>
   annoParamsToLegacyFormat (policy_AnnotationParameters bareArrayPolicy) = Inl NilPointerDereference \<and>
   buildDocument exampleEnv ''/out'' bareArrayPolicy = ([], Inl NilPointerDereference) \<and>
   getDocumentation (exampleEnv\<lparr>rego_GetAllSeveritiesWithoutImports := \<lambda>path. Inr [bareArrayPolicy]\<rparr>)
     ''.'' ''/out'' = ([], Inl NilPointerDereference)"
proof -
  let ?env = "exampleEnv\<lparr>rego_GetAllSeveritiesWithoutImports := \<lambda>path. Inr [bareArrayPolicy]\<rparr>"
  have t: "policy_Title bareArrayPolicy \<noteq> ''''"
    by (simp add: bareArrayPolicy_def examplePolicy_def)
  have a: "policy_AnnotationParameters bareArrayPolicy = [(''tags'', JSONSchemaProps ''array'' ''Allowed tags'' None)]"
    by (simp add: bareArrayPolicy_def)
  have p: "annoParamsToLegacyFormat (policy_AnnotationParameters bareArrayPolicy) = Inl NilPointerDereference"
    by (simp add: a annoParamsToLegacyFormat_def)
  have b: "buildDocument exampleEnv ''/out'' bareArrayPolicy = ([], Inl NilPointerDereference)"
    by code_simp
  have n: "viper_no_rego ?env = False"
    by (simp add: exampleEnv_def)
  have "getDocumentation ?env ''.'' ''/out'' = ([], Inl NilPointerDereference)"
    unfolding getDocumentation_def n using t b
    by (simp add: buildDocument_loader)
  with t a p b show ?thesis by simp
qed

section \<open>Clean paths on the Unix host\<close>

lemma splitOn_not_Nil: "splitOn sep s \<noteq> []"
  by (induction s) (auto split: list.splits)

lemma splitOn_no_sep: "sep \<notin> set x \<Longrightarrow> splitOn sep x = [x]"
  by (induction x) auto

lemma splitOn_append_sep:
  "sep \<notin> set x \<Longrightarrow> splitOn sep (x @ sep # rest) = x # splitOn sep rest"
  by (induction x) auto

lemma splitOn_Join:
  "es \<noteq> [] \<Longrightarrow> \<forall>e\<in>set es. sep \<notin> set e \<Longrightarrow> splitOn sep (Join es [sep]) = es"
  by (induction es "[sep]" rule: Join.induct) (auto simp: splitOn_no_sep splitOn_append_sep)

lemma splitOn_elements: "e \<in> set (splitOn sep s) \<Longrightarrow> sep \<notin> set e"
  by (induction s arbitrary: e) (auto split: if_splits list.splits)

lemma Join_snoc: "es \<noteq> [] \<Longrightarrow> Join (es @ [x]) sep = Join es sep @ sep @ x"
  by (induction es sep rule: Join.induct) auto

lemma Join_Cons: "es \<noteq> [] \<Longrightarrow> Join (x # es) sep = x @ sep @ Join es sep"
  by (cases es) auto

lemma rootedPath_Join: "es \<noteq> [] \<Longrightarrow> rootedPath es = Join ('''' # es) ''/''"
  by (simp add: rootedPath_def Join_Cons)

lemma splitOn_rootedPath:
  assumes "normalElements es"
  shows "splitOn CHR ''/'' (rootedPath es) = (if es = [] then ['''', ''''] else '''' # es)"
proof (cases "es = []")
  case True
  then show ?thesis by (simp add: rootedPath_def)
next
  case False
  from assms have "\<forall>e\<in>set ('''' # es). CHR ''/'' \<notin> set e"
    by (simp add: normalElements_def)
  then have "splitOn CHR ''/'' (Join ('''' # es) ''/'') = '''' # es"
    by (intro splitOn_Join) simp_all
  with False rootedPath_Join [OF False] show ?thesis
    by (simp only: if_False)
qed

lemma cleanElements_plain:
  "\<forall>e\<in>set es. e \<noteq> ''.'' \<and> e \<noteq> ''..'' \<Longrightarrow>
   cleanElements rooted acc es = acc @ filter (\<lambda>e. e \<noteq> '''') es"
  by (induction es arbitrary: acc) auto

lemma unixClean_rootedPath: "normalElements es \<Longrightarrow> unixClean (rootedPath es) = rootedPath es"
proof -
  assume n: "normalElements es"
  have r: "prefix ''/'' (rootedPath es)"
    by (simp add: rootedPath_def)
  have f: "filter (\<lambda>e. e \<noteq> '''') es = es"
    using n by (auto simp: normalElements_def filter_id_conv)
  have "cleanElements True [] (splitOn CHR ''/'' (rootedPath es)) = es"
    using n f by (subst cleanElements_plain) (auto simp: splitOn_rootedPath normalElements_def)
  with r show ?thesis
    by (simp add: unixClean_def Let_def) (simp add: rootedPath_def)
qed

lemma cleanElements_normal:
  "normalElements acc \<Longrightarrow> \<forall>e\<in>set es. CHR ''/'' \<notin> set e \<Longrightarrow>
   normalElements (cleanElements True acc es)"
proof (induction es arbitrary: acc)
  case Nil
  then show ?case by simp
next
  case (Cons e es)
  have b: "normalElements (butlast acc)"
    using Cons.prems(1) by (auto simp: normalElements_def dest: in_set_butlastD)
  have a: "e \<noteq> '''' \<Longrightarrow> e \<noteq> ''.'' \<Longrightarrow> e \<noteq> ''..'' \<Longrightarrow> normalElements (acc @ [e])"
    using Cons.prems by (auto simp: normalElements_def)
  from Cons.prems(2) have "\<forall>e\<in>set es. CHR ''/'' \<notin> set e" by simp
  with Cons.IH Cons.prems(1) a b show ?case by auto
qed

lemma unixClean_rooted:
  assumes "prefix ''/'' path"
  obtains es where "normalElements es" "unixClean path = rootedPath es"
proof
  show "normalElements (cleanElements True [] (splitOn CHR ''/'' path))"
    by (rule cleanElements_normal) (auto simp: normalElements_def dest: splitOn_elements)
  show "unixClean path = rootedPath (cleanElements True [] (splitOn CHR ''/'' path))"
    using assms by (simp add: unixClean_def rootedPath_def)
qed

lemma Join_eq_Nil: "\<forall>e\<in>set es. e \<noteq> [] \<Longrightarrow> Join es sep = [] \<longleftrightarrow> es = []"
  by (induction es sep rule: Join.induct) auto

lemma rootedPath_root: "normalElements es \<Longrightarrow> rootedPath es = ''/'' \<longleftrightarrow> es = []"
  using Join_eq_Nil [of es "''/''"] by (auto simp: rootedPath_def normalElements_def)

lemma elements_rootedPath: "normalElements es \<Longrightarrow> elements (rootedPath es) = '''' # es"
  using rootedPath_root [of es] splitOn_rootedPath [of es]
  by (auto simp: elements_def rootedPath_def)

lemma rootedPath_inject:
  assumes "normalElements as" "normalElements ps"
  shows "rootedPath as = rootedPath ps \<longleftrightarrow> as = ps"
proof
  assume "rootedPath as = rootedPath ps"
  then have "elements (rootedPath as) = elements (rootedPath ps)" by simp
  with assms show "as = ps" by (simp add: elements_rootedPath)
qed simp

lemma dropCommon_fst_subset: "dropCommon bs ts = (bs', ts') \<Longrightarrow> set bs' \<subseteq> set bs"
  by (induction bs ts rule: dropCommon.induct) (auto split: if_splits)

lemma unixRel_rootedPath:
  assumes "normalElements as" "normalElements ps"
  shows "unixRel (rootedPath as) (rootedPath ps) =
           (if ps = as then Inr ''.''
            else Inr (Join (replicate (length (fst (dropCommon as ps))) ''..'' @ snd (dropCommon as ps)) ''/''))"
proof -
  obtain bs ts where d: "dropCommon as ps = (bs, ts)"
    by (cases "dropCommon as ps")
  from dropCommon_fst_subset [OF d] assms(1) have "\<not> (bs \<noteq> [] \<and> hd bs = ''..'')"
    by (cases bs) (auto simp: normalElements_def)
  moreover have "rootedPath as \<noteq> ''.''" "prefix ''/'' (rootedPath as)" "prefix ''/'' (rootedPath ps)"
    by (simp_all add: rootedPath_def)
  ultimately show ?thesis
    using assms d
    by (auto simp: unixRel_def unixClean_rootedPath rootedPath_inject elements_rootedPath Let_def)
qed

lemma dirPart_snoc:
  "CHR ''/'' \<notin> set x \<Longrightarrow>
   rev (dropWhile (\<lambda>c. c \<noteq> CHR ''/'') (rev (s @ ''/'' @ x))) = s @ ''/''"
  by (auto simp: dropWhile_append3)

lemma dirPart_plain:
  "CHR ''/'' \<notin> set x \<Longrightarrow> rev (dropWhile (\<lambda>c. c \<noteq> CHR ''/'') (rev x)) = []"
  by (auto simp: dropWhile_eq_Nil_conv)

lemma unixDir_rootedPath:
  assumes "normalElements ps" "ps \<noteq> []"
  shows "unixDir (rootedPath ps) = rootedPath (butlast ps)"
proof -
  from assms have x: "CHR ''/'' \<notin> set (last ps)" and n: "normalElements (butlast ps)"
    by (auto simp: normalElements_def dest: in_set_butlastD)
  show ?thesis
  proof (cases "butlast ps = []")
    case True
    with assms(2) have "ps = [last ps]"
      by (metis append_butlast_last_id append_Nil)
    then have "rootedPath ps = '''' @ ''/'' @ last ps"
      by (metis Join.simps(2) rootedPath_def append_Nil)
    then have "unixDir (rootedPath ps) = unixClean ''/''"
      unfolding unixDir_def using dirPart_snoc [OF x, of "''''"] by simp
    also have "\<dots> = rootedPath []"
      using unixClean_rootedPath [of "[]"] by (simp add: rootedPath_def normalElements_def)
    finally show ?thesis using True by simp
  next
    case False
    have "ps = butlast ps @ [last ps]"
      using assms(2) by simp
    then have "rootedPath ps = rootedPath (butlast ps) @ ''/'' @ last ps"
      using Join_snoc [OF False, of "last ps" "''/''"] by (simp add: rootedPath_def)
    then have "unixDir (rootedPath ps) = unixClean (rootedPath (butlast ps) @ ''/'')"
      unfolding unixDir_def using dirPart_snoc [OF x, of "rootedPath (butlast ps)"] by simp
    also have "rootedPath (butlast ps) @ ''/'' = Join ('''' # butlast ps @ ['''']) ''/''"
      using Join_snoc [of "'''' # butlast ps" "''''" "''/''"] rootedPath_Join [OF False] by simp
    also have "unixClean \<dots> = rootedPath (butlast ps)"
    proof -
      have "\<forall>e\<in>set ('''' # butlast ps @ ['''']). CHR ''/'' \<notin> set e"
        using n by (simp add: normalElements_def)
      then have s: "splitOn CHR ''/'' (Join ('''' # butlast ps @ ['''']) ''/'') = '''' # butlast ps @ ['''']"
        by (intro splitOn_Join) simp_all
      have f: "filter (\<lambda>e. e \<noteq> '''') (butlast ps) = butlast ps"
        using n by (auto simp: normalElements_def filter_id_conv)
      have c: "cleanElements True [] ('''' # butlast ps @ ['''']) = butlast ps"
        using n f by (subst cleanElements_plain) (auto simp: normalElements_def)
      have p: "prefix ''/'' (Join ('''' # butlast ps @ ['''']) ''/'')"
        using Join_Cons [of "butlast ps @ ['''']" "''''" "''/''"] by simp
      have "unixClean (Join ('''' # butlast ps @ ['''']) ''/'') =
          ''/'' @ Join (cleanElements True [] (splitOn CHR ''/'' (Join ('''' # butlast ps @ ['''']) ''/''))) ''/''"
        by (simp only: unixClean_def Let_def p if_True)
      then show ?thesis
        unfolding s c rootedPath_def .
    qed
    finally show ?thesis .
  qed
qed

lemma cleanElements_dotdots:
  "cleanElements False (replicate m ''..'') (replicate n ''..'' @ rest) =
   cleanElements False (replicate (m + n) ''..'') rest"
proof (induction n arbitrary: m)
  case 0
  then show ?case by simp
next
  case (Suc n)
  have "\<not> (replicate m ''..'' \<noteq> [] \<and> last (replicate m ''..'') \<noteq> ''..'')"
    using last_replicate [of m "''..''"] by (cases "m = 0") auto
  then have "cleanElements False (replicate m ''..'') (''..'' # replicate n ''..'' @ rest) =
        cleanElements False (replicate m ''..'' @ [''..'']) (replicate n ''..'' @ rest)"
    by (simp only: cleanElements.simps if_False) simp
  also have "replicate m ''..'' @ [''..''] = replicate (Suc m) ''..''"
    by (simp add: replicate_append_same)
  finally show ?case
    using Suc.IH [of "Suc m"] by simp
qed

lemma not_rooted_Join:
  "e \<noteq> [] \<Longrightarrow> CHR ''/'' \<notin> set e \<Longrightarrow> \<not> prefix ''/'' (Join (e # es) ''/'')"
  by (cases e; cases es) auto

lemma unixClean_relative:
  assumes "normalElements ns" "replicate n ''..'' @ ns \<noteq> []"
  shows "unixClean (Join (replicate n ''..'' @ ns @ ['''']) ''/'') = Join (replicate n ''..'' @ ns) ''/''"
proof -
  let ?L = "replicate n ''..'' @ ns"
  let ?J = "Join (replicate n ''..'' @ ns @ ['''']) ''/''"
  have e: "\<forall>e\<in>set (replicate n ''..'' @ ns @ ['''']). CHR ''/'' \<notin> set e"
  proof
    fix e assume "e \<in> set (replicate n ''..'' @ ns @ [''''])"
    then consider "e = ''..''" | "e \<in> set ns" | "e = ''''"
      by auto
    then show "CHR ''/'' \<notin> set e"
    proof cases
      case 2
      with assms(1) show ?thesis by (simp add: normalElements_def)
    qed simp_all
  qed
  then have s: "splitOn CHR ''/'' ?J = replicate n ''..'' @ ns @ ['''']"
    by (intro splitOn_Join) simp_all
  from assms obtain h t where ht: "replicate n ''..'' @ ns @ [''''] = h # t" "h \<noteq> []" "CHR ''/'' \<notin> set h"
    by (cases n; cases ns) (auto simp: normalElements_def)
  then have r: "prefix ''/'' ?J = False"
    using not_rooted_Join [of h t] by simp
  have f: "filter (\<lambda>e. e \<noteq> '''') (ns @ ['''']) = ns"
    using assms(1) by (auto simp: normalElements_def filter_id_conv)
  have "cleanElements False [] (replicate n ''..'' @ ns @ ['''']) =
        cleanElements False (replicate n ''..'') (ns @ [''''])"
    using cleanElements_dotdots [of 0 n "ns @ ['''']"] by simp
  also have "\<dots> = ?L"
    using assms(1) f by (subst cleanElements_plain) (auto simp: normalElements_def)
  finally have c: "cleanElements False [] (replicate n ''..'' @ ns @ ['''']) = ?L" .
  have "unixClean ?J =
          (if cleanElements False [] (splitOn CHR ''/'' ?J) = [] then ''.''
           else Join (cleanElements False [] (splitOn CHR ''/'' ?J)) ''/'')"
    by (simp only: unixClean_def Let_def r if_False)
  then show ?thesis
    unfolding s c using assms(2) by simp
qed

lemma unixDir_relative:
  assumes "normalElements ts" "ts \<noteq> []"
  shows "unixDir (Join (replicate n ''..'' @ ts) ''/'') =
           (if replicate n ''..'' @ butlast ts = [] then ''.''
            else Join (replicate n ''..'' @ butlast ts) ''/'')"
proof -
  from assms have x: "CHR ''/'' \<notin> set (last ts)" and b: "normalElements (butlast ts)"
    by (auto simp: normalElements_def dest: in_set_butlastD)
  have t: "replicate n ''..'' @ ts = (replicate n ''..'' @ butlast ts) @ [last ts]"
    using assms(2) by simp
  show ?thesis
  proof (cases "replicate n ''..'' @ butlast ts = []")
    case True
    with t have "replicate n ''..'' @ ts = [last ts]"
      by simp
    then have j: "Join (replicate n ''..'' @ ts) ''/'' = last ts"
      by (simp only: Join.simps)
    have "unixDir (Join (replicate n ''..'' @ ts) ''/'') = unixClean []"
      by (simp only: unixDir_def j dirPart_plain [OF x])
    also have "\<dots> = ''.''"
      by (simp add: unixClean_def)
    finally show ?thesis using True by simp
  next
    case False
    have "Join (replicate n ''..'' @ ts) ''/'' =
          Join (replicate n ''..'' @ butlast ts) ''/'' @ ''/'' @ last ts"
      using Join_snoc [OF False, of "last ts" "''/''"] t by simp
    then have "unixDir (Join (replicate n ''..'' @ ts) ''/'') =
          unixClean (Join (replicate n ''..'' @ butlast ts) ''/'' @ ''/'')"
      unfolding unixDir_def
      using dirPart_snoc [OF x, of "Join (replicate n ''..'' @ butlast ts) ''/''"] by simp
    also have "Join (replicate n ''..'' @ butlast ts) ''/'' @ ''/'' =
          Join (replicate n ''..'' @ butlast ts @ ['''']) ''/''"
      using Join_snoc [OF False, of "''''" "''/''"] by simp
    also have "unixClean \<dots> = Join (replicate n ''..'' @ butlast ts) ''/''"
      by (rule unixClean_relative [OF b False])
    finally show ?thesis using False by simp
  qed
qed

lemma dropCommon_butlast:
  "dropCommon as ps = (bs, ts) \<Longrightarrow> ts \<noteq> [] \<Longrightarrow> dropCommon as (butlast ps) = (bs, butlast ts)"
proof (induction as ps rule: dropCommon.induct)
  case (1 b bs' t ts')
  show ?case
  proof (cases "b = t")
    case True
    with "1.prems" have "ts' \<noteq> []"
      by (cases ts') auto
    with True "1.IH" "1.prems" show ?thesis
      by simp
  next
    case False
    with "1.prems" show ?thesis
      by (cases ts') auto
  qed
qed simp_all

lemma dropCommon_same: "dropCommon xs xs = ([], [])"
  by (induction xs) auto

lemma dropCommon_both_Nil: "dropCommon xs ys = ([], []) \<Longrightarrow> xs = ys"
  by (induction xs ys rule: dropCommon.induct) (auto split: if_splits)

lemma dropCommon_snd_Nil: "dropCommon as ps = (bs, []) \<Longrightarrow> prefix ps as"
  by (induction as ps rule: dropCommon.induct) (auto split: if_splits)

lemma dropCommon_snd_subset: "dropCommon bs ts = (bs', ts') \<Longrightarrow> set ts' \<subseteq> set ts"
  by (induction bs ts rule: dropCommon.induct) (auto split: if_splits)

lemma unixDir_unixRel:
  assumes "normalElements as" "normalElements ps" "\<not> prefix ps as"
  shows "\<exists>r. unixRel (rootedPath as) (rootedPath ps) = Inr r \<and>
             unixRel (rootedPath as) (unixDir (rootedPath ps)) = Inr (unixDir r)"
proof -
  obtain bs ts where d: "dropCommon as ps = (bs, ts)"
    by (cases "dropCommon as ps")
  from assms(3) dropCommon_snd_Nil [of as ps bs] d have ts: "ts \<noteq> []"
    by auto
  from assms(3) have ne: "ps \<noteq> []" "ps \<noteq> as"
    by auto
  from dropCommon_snd_subset [OF d] assms(2) have nts: "normalElements ts"
    by (auto simp: normalElements_def)
  from assms(2) have nb: "normalElements (butlast ps)"
    by (auto simp: normalElements_def dest: in_set_butlastD)
  note d' = dropCommon_butlast [OF d ts]
  have r: "unixRel (rootedPath as) (rootedPath ps) = Inr (Join (replicate (length bs) ''..'' @ ts) ''/'')"
    using unixRel_rootedPath [OF assms(1,2)] ne d by simp
  have e: "butlast ps = as \<longleftrightarrow> replicate (length bs) ''..'' @ butlast ts = []"
    using d' dropCommon_same [of as] dropCommon_both_Nil [of as "butlast ps"] by auto
  have "unixRel (rootedPath as) (unixDir (rootedPath ps)) =
          unixRel (rootedPath as) (rootedPath (butlast ps))"
    by (simp add: unixDir_rootedPath [OF assms(2) ne(1)])
  also have "\<dots> = Inr (unixDir (Join (replicate (length bs) ''..'' @ ts) ''/''))"
    unfolding unixRel_rootedPath [OF assms(1) nb] unixDir_relative [OF nts ts] d' e
    by simp
  finally show ?thesis using r by simp
qed

lemma unixAbs_rootedPath:
  assumes "unixAbs (Inr wd) path = Inr a" "prefix ''/'' wd"
  obtains es where "normalElements es" "a = rootedPath es"
proof -
  have "\<exists>y. prefix ''/'' y \<and> a = unixClean y"
  proof (cases "prefix ''/'' path")
    case True
    with assms(1) show ?thesis by (auto simp: unixAbs_def)
  next
    case False
    from assms(2) have "wd \<noteq> ''''" "prefix ''/'' (wd @ ''/'' @ path)"
      by (auto intro: prefix_prefix)
    moreover from False this(1) assms(1) have "a = unixClean (wd @ ''/'' @ path)"
      by (simp add: unixAbs_def unixJoin_def)
    ultimately show ?thesis by blast
  qed
  then obtain y where "prefix ''/'' y" "a = unixClean y"
    by blast
  then show ?thesis
    using unixClean_rooted [of y] that by metis
qed

lemma ReplaceAll_same: "ReplaceAll s [c] [c] = s"
  by (induction s) auto

section \<open>The link of a policy\<close>

lemma unix_relative_directory:
  assumes "unixHost env wd"
    and "filepath_Abs env outputDirectory = Inr absOut"
    and "filepath_Abs env path = Inr absPolicy"
    and "filepath_Rel env absOut absPolicy = Inr relPath"
    and "\<not> prefix (elements absPolicy) (elements absOut)"
  shows "unixRel absOut (unixDir absPolicy) =
           Inr (ReplaceAll (filepath_Dir env relPath) [os_PathSeparator env] ''/'')"
proof -
  from assms(1) have h: "filepath_Abs env = unixAbs (Inr wd)" "prefix ''/'' wd"
    "filepath_Rel env = unixRel" "filepath_Dir env = unixDir" "os_PathSeparator env = CHR ''/''"
    by (simp_all add: unixHost_def)
  from assms(2) h obtain as where as: "normalElements as" "absOut = rootedPath as"
    by (metis unixAbs_rootedPath)
  from assms(3) h obtain ps where ps: "normalElements ps" "absPolicy = rootedPath ps"
    by (metis unixAbs_rootedPath)
  from assms(5) as ps have "\<not> prefix ps as"
    by (simp add: elements_rootedPath)
  from unixDir_unixRel [OF as(1) ps(1) this] obtain r where
    r: "unixRel absOut absPolicy = Inr r" "unixRel absOut (unixDir absPolicy) = Inr (unixDir r)"
    using as(2) ps(2) by auto
  from r(1) assms(4) h(3) have "relPath = r"
    by simp
  with r(2) h show ?thesis
    by (simp add: ReplaceAll_same)
qed

text \<open>
  Claim C8. The link of the document built for a policy is the base URL, a slash and the
  policy path as given when a base URL is set. Otherwise both the output directory and
  the policy path are made absolute, and the link is the directory part of the policy
  path relative to the output directory, with every host path separator replaced by a
  slash. On the Unix host this is the path of the policy's directory relative to the
  absolute output directory, whenever the policy path is not the output directory itself
  or one of its ancestors.
\<close>

theorem url_resolution:
  assumes "buildDocument env outputDirectory policy = (warnings, Inr document)"
  shows "(viper_url env \<noteq> '''' \<longrightarrow> URL document = viper_url env @ ''/'' @ policy_Path policy) \<and>
         (viper_url env = '''' \<longrightarrow>
            (\<exists>absOut absPolicy relPath.
               filepath_Abs env outputDirectory = Inr absOut \<and>
               filepath_Abs env (policy_Path policy) = Inr absPolicy \<and>
               filepath_Rel env absOut absPolicy = Inr relPath \<and>
               URL document = ReplaceAll (filepath_Dir env relPath) [os_PathSeparator env] ''/'' \<and>
               (unixHost env wd \<and> \<not> prefix (elements absPolicy) (elements absOut) \<longrightarrow>
                  unixRel absOut (unixDir absPolicy) = Inr (URL document))))"
proof -
  from assms have u: "policyURL env outputDirectory policy = Inr (URL document)"
    by (elim buildDocument_Inr) simp
  show ?thesis
  proof (intro conjI impI)
    assume "viper_url env \<noteq> ''''"
    with u show "URL document = viper_url env @ ''/'' @ policy_Path policy"
      by (simp add: policyURL_def)
  next
    assume "viper_url env = ''''"
    with u obtain absOut absPolicy relPath where
      a: "filepath_Abs env outputDirectory = Inr absOut"
         "filepath_Abs env (policy_Path policy) = Inr absPolicy"
         "filepath_Rel env absOut absPolicy = Inr relPath"
         "URL document = ReplaceAll (filepath_Dir env relPath) [os_PathSeparator env] ''/''"
      by (auto simp: policyURL_def split: sum.splits)
    have "unixHost env wd \<and> \<not> prefix (elements absPolicy) (elements absOut) \<longrightarrow>
            unixRel absOut (unixDir absPolicy) = Inr (URL document)"
      using unix_relative_directory [OF _ a(1-3), of wd] a(4) by auto
    with a show "\<exists>absOut absPolicy relPath.
               filepath_Abs env outputDirectory = Inr absOut \<and>
               filepath_Abs env (policy_Path policy) = Inr absPolicy \<and>
               filepath_Rel env absOut absPolicy = Inr relPath \<and>
               URL document = ReplaceAll (filepath_Dir env relPath) [os_PathSeparator env] ''/'' \<and>
               (unixHost env wd \<and> \<not> prefix (elements absPolicy) (elements absOut) \<longrightarrow>
                  unixRel absOut (unixDir absPolicy) = Inr (URL document))"
      by blast
  qed
qed

theorem url_resolution_witness:
  "buildDocument exampleEnv ''/out'' examplePolicy = ([], Inr exampleBuilt) \<and>
   viper_url exampleEnv = '''' \<and>
   policy_Path examplePolicy = ''/out/sub/policy.rego'' \<and>
   unixHost exampleEnv ''/work'' \<and>
   filepath_Abs exampleEnv ''/out'' = Inr ''/out'' \<and>
   filepath_Abs exampleEnv ''/out/sub/policy.rego'' = Inr ''/out/sub/policy.rego'' \<and>
   \<not> prefix (elements ''/out/sub/policy.rego'') (elements ''/out'') \<and>
   unixRel ''/out'' (unixDir ''/out/sub/policy.rego'') = Inr ''sub'' \<and>
   URL exampleBuilt = ''sub'' \<and>
   (\<exists>document.
      buildDocument hostedEnv ''/out'' relativePolicy = ([], Inr document) \<and>
      URL document = ''https://example.com/repo/policies/labels/src.rego'')"
proof -
  have v: "viper_url exampleEnv = ''''"
    by (simp add: exampleEnv_def)
  have p: "policy_Path examplePolicy = ''/out/sub/policy.rego''"
    by (simp add: examplePolicy_def)
  have h: "unixHost exampleEnv ''/work''"
    by (simp add: unixHost_def exampleEnv_def)
  have a: "filepath_Abs exampleEnv ''/out'' = Inr ''/out''"
    "filepath_Abs exampleEnv ''/out/sub/policy.rego'' = Inr ''/out/sub/policy.rego''"
    by code_simp+
  have n: "\<not> prefix (elements ''/out/sub/policy.rego'') (elements ''/out'')"
    by code_simp
  have r: "unixRel ''/out'' (unixDir ''/out/sub/policy.rego'') = Inr ''sub''"
    by code_simp
  from url_resolution [OF example_built, of "''/work''"] v p a h n
  have "unixRel ''/out'' (unixDir ''/out/sub/policy.rego'') = Inr (URL exampleBuilt)"
    by auto
  with r have u: "URL exampleBuilt = ''sub''"
    by simp
  have "case buildDocument hostedEnv ''/out'' relativePolicy of
          (warnings, Inr document) \<Rightarrow> warnings = [] | (warnings, Inl err) \<Rightarrow> False"
    by code_simp
  then obtain document where b: "buildDocument hostedEnv ''/out'' relativePolicy = ([], Inr document)"
    by (auto split: prod.splits sum.splits)
  have "viper_url hostedEnv = ''https://example.com/repo''" "policy_Path relativePolicy = ''policies/labels/src.rego''"
    by (simp_all add: hostedEnv_def relativePolicy_def)
  with url_resolution [OF b, of "''/work''"]
  have "URL document = ''https://example.com/repo/policies/labels/src.rego''"
    by simp
  with b u example_built v p h a n r show ?thesis
    by blast
qed

end
